theory Spec2Isabelle
  imports Complex_Main "HOL-Library.Sublist"
begin

section \<open>Community skills validator (skills/community-skills/validate-skill.js)\<close>

text \<open>
  A shallow embedding of the class \<open>CommunitySkillsValidator\<close>.  JavaScript strings are
  modelled as HOL strings of ASCII characters, numbers that hold counts as \<open>nat\<close>, epoch
  milliseconds as \<open>int\<close>, and a property that may be absent, \<open>null\<close> or \<open>undefined\<close> as an
  \<open>option\<close>.  Exceptions and rejected promises are values \<open>Inl\<close> of a sum type.
\<close>

subsection \<open>Repository metadata and the safety score\<close>

text \<open>
  The object returned by the GitHub repository endpoint, restricted to the properties the
  validator reads.  \<open>updated_at\<close> holds \<open>new Date(repoInfo.updated_at).getTime()\<close>: the
  epoch milliseconds of the date, or \<open>None\<close> where that is \<open>NaN\<close> (property absent or not
  a date).  \<open>license\<close> holds the name of the license object, \<open>None\<close> for \<open>null\<close>.
\<close>

record repo_info =
  stargazers_count :: "nat option"
  forks_count :: "nat option"
  updated_at :: "int option"
  description :: "string option"
  license :: "string option"

text \<open>The empty object \<open>{}\<close>.\<close>

definition emptyInfo :: repo_info where
  "emptyInfo = \<lparr>stargazers_count = None, forks_count = None, updated_at = None,
                 description = None, license = None\<rparr>"

text \<open>JavaScript truthiness of a count: \<open>undefined\<close>, \<open>null\<close> and \<open>0\<close> are falsy.\<close>

fun truthyCount :: "nat option \<Rightarrow> bool" where
  "truthyCount None = False"
| "truthyCount (Some n) = (n \<noteq> 0)"

text \<open>\<open>count >= k\<close>, which is false when the count is \<open>undefined\<close>.\<close>

fun countGe :: "nat option \<Rightarrow> nat \<Rightarrow> bool" where
  "countGe None k = False"
| "countGe (Some n) k = (k \<le> n)"

text \<open>
  \<open>(Date.now() - lastUpdate.getTime()) / (1000 * 60 * 60 * 24)\<close>; the quotient is
  \<open>NaN\<close> (here \<open>None\<close>) for an invalid date, and every comparison with \<open>NaN\<close> is false.
\<close>

definition daysSinceUpdate :: "int \<Rightarrow> int option \<Rightarrow> real option" where
  "daysSinceUpdate now lastUpdate =
     map_option (\<lambda>t. real_of_int (now - t) / (1000 * 60 * 60 * 24)) lastUpdate"

fun daysLe :: "real option \<Rightarrow> real \<Rightarrow> bool" where
  "daysLe None k = False"
| "daysLe (Some d) k = (d \<le> k)"

text \<open>Truthiness of \<open>repoInfo.description\<close>: \<open>null\<close>, \<open>undefined\<close> and \<open>""\<close> are falsy.\<close>

fun truthyString :: "string option \<Rightarrow> bool" where
  "truthyString None = False"
| "truthyString (Some s) = (s \<noteq> [])"

fun lengthGt :: "string option \<Rightarrow> nat \<Rightarrow> bool" where
  "lengthGt None k = False"
| "lengthGt (Some s) k = (k < length s)"

text \<open>
  \<open>calculateSafetyScore(repoInfo)\<close>, with the reading of \<open>Date.now()\<close> as first argument.
  The argument \<open>None\<close> is a \<open>null\<close> or \<open>undefined\<close> \<open>repoInfo\<close>.  Each \<open>let\<close> is one of
  the source's \<open>score += k\<close> statements.
\<close>

fun calculateSafetyScore :: "int \<Rightarrow> repo_info option \<Rightarrow> int" where
  "calculateSafetyScore now None = 0"
| "calculateSafetyScore now (Some repoInfo) =
     (if \<not> truthyCount (stargazers_count repoInfo) then 0
      else
        let score = 0;
            score = (if countGe (stargazers_count repoInfo) 100 then score + 3
                     else if countGe (stargazers_count repoInfo) 20 then score + 2
                     else if countGe (stargazers_count repoInfo) 5 then score + 1
                     else score);
            score = (if countGe (forks_count repoInfo) 10 then score + 2
                     else if countGe (forks_count repoInfo) 2 then score + 1
                     else score);
            days = daysSinceUpdate now (updated_at repoInfo);
            score = (if daysLe days 30 then score + 3
                     else if daysLe days 90 then score + 2
                     else if daysLe days 180 then score + 1
                     else score);
            score = (if truthyString (description repoInfo)
                        \<and> lengthGt (description repoInfo) 10 then score + 1
                     else score);
            score = (if license repoInfo \<noteq> None then score + 1 else score)
        in score)"

subsection \<open>The score table of the specification\<close>

text \<open>
  The five buckets as the specification's table gives them, over plain values; the
  theorems below compare \<open>calculateSafetyScore\<close> with their sum.
\<close>

definition starsBucket :: "nat \<Rightarrow> int" where
  "starsBucket s = (if s \<ge> 100 then 3 else if s \<ge> 20 then 2 else if s \<ge> 5 then 1 else 0)"

definition forksBucket :: "nat \<Rightarrow> int" where
  "forksBucket f = (if f \<ge> 10 then 2 else if f \<ge> 2 then 1 else 0)"

definition recencyBucket :: "real \<Rightarrow> int" where
  "recencyBucket days =
     (if days \<le> 30 then 3 else if days \<le> 90 then 2 else if days \<le> 180 then 1 else 0)"

definition descriptionBucket :: "string option \<Rightarrow> int" where
  "descriptionBucket d = (case d of None \<Rightarrow> 0 | Some s \<Rightarrow> if length s > 10 then 1 else 0)"

definition licenseBucket :: "string option \<Rightarrow> int" where
  "licenseBucket l = (case l of None \<Rightarrow> 0 | Some _ \<Rightarrow> 1)"

text \<open>A bucket whose signal is absent contributes nothing.\<close>

definition orZero :: "('a \<Rightarrow> int) \<Rightarrow> 'a option \<Rightarrow> int" where
  "orZero f x = (case x of None \<Rightarrow> 0 | Some v \<Rightarrow> f v)"

definition bucketSum :: "int \<Rightarrow> repo_info \<Rightarrow> int" where
  "bucketSum now r =
     orZero starsBucket (stargazers_count r)
     + orZero forksBucket (forks_count r)
     + orZero recencyBucket (daysSinceUpdate now (updated_at r))
     + descriptionBucket (description r)
     + licenseBucket (license r)"

subsection \<open>String operations\<close>

text \<open>
  \<open>String.prototype.toLowerCase\<close>, \<open>trim\<close>, \<open>includes\<close> and \<open>split('\n')\<close> on ASCII
  text.  The white space of \<open>trim\<close> in ASCII is tab, line feed, vertical tab, form feed,
  carriage return and space.
\<close>

definition toLowerChar :: "char \<Rightarrow> char" where
  "toLowerChar c =
     (case map_of (zip ''ABCDEFGHIJKLMNOPQRSTUVWXYZ'' ''abcdefghijklmnopqrstuvwxyz'') c of
        Some l \<Rightarrow> l
      | None \<Rightarrow> c)"

definition toLowerCase :: "string \<Rightarrow> string" where
  "toLowerCase s = map toLowerChar s"

definition isWhiteSpace :: "char \<Rightarrow> bool" where
  "isWhiteSpace c \<longleftrightarrow> c \<in> set [CHR 0x09, CHR 0x0A, CHR 0x0B, CHR 0x0C, CHR 0x0D, CHR '' '']"

definition trim :: "string \<Rightarrow> string" where
  "trim s = rev (dropWhile isWhiteSpace (rev (dropWhile isWhiteSpace s)))"

text \<open>
  \<open>s.includes(sub)\<close>: \<open>sub\<close> occurs in \<open>s\<close> at some position (\<open>includes\<close> is a
  keyword of Isabelle, hence the suffix).
\<close>

fun includes_str :: "string \<Rightarrow> string \<Rightarrow> bool" where
  "includes_str [] sub = (sub = [])"
| "includes_str (c # cs) sub = (prefix sub (c # cs) \<or> includes_str cs sub)"

text \<open>\<open>content.split('\n')\<close>, with the line being read as accumulator.\<close>

fun splitLines :: "string \<Rightarrow> string \<Rightarrow> string list" where
  "splitLines cur [] = [cur]"
| "splitLines cur (c # cs) =
     (if c = CHR 0x0A then cur # splitLines [] cs else splitLines (cur @ [c]) cs)"

text \<open>\<open>lines.join('\n')\<close>, to state that \<open>splitLines\<close> loses nothing.\<close>

fun joinLines :: "string list \<Rightarrow> string" where
  "joinLines [] = []"
| "joinLines [l] = l"
| "joinLines (l # l' # ls) = l @ CHR 0x0A # joinLines (l' # ls)"

text \<open>\<open>repo.replace(/\.git$/, '')\<close>: the pattern can only match the last four characters.\<close>

definition replaceGitSuffix :: "string \<Rightarrow> string" where
  "replaceGitSuffix r = (if suffix ''.git'' r then take (length r - 4) r else r)"

subsection \<open>The link pattern\<close>

text \<open>
  \<open>line.match(/\[([^\]]+)\]\(https:\/\/github\.com\/([^\/]+)\/([^)]+)\)/)\<close>.
  Each group is a greedy run of a negated class followed by the excluded character
  itself, so at a given start position the run up to the first excluded character is
  the only candidate: a shorter run is followed by a character of the class, not by the
  excluded one.  \<open>many1 c\<close> is such a group, \<open>lit\<close> a literal.
\<close>

definition many1 :: "char \<Rightarrow> string \<Rightarrow> (string \<times> string) option" where
  "many1 c s =
     (let run = takeWhile (\<lambda>x. x \<noteq> c) s in
      if run = [] then None else Some (run, dropWhile (\<lambda>x. x \<noteq> c) s))"

fun lit :: "string \<Rightarrow> string \<Rightarrow> string option" where
  "lit [] s = Some s"
| "lit (p # ps) [] = None"
| "lit (p # ps) (c # cs) = (if p = c then lit ps cs else None)"

text \<open>The match anchored at the start of \<open>s\<close>: the three groups, if the pattern matches.\<close>

definition matchAt :: "string \<Rightarrow> (string \<times> string \<times> string) option" where
  "matchAt s =
     Option.bind (lit ''['' s) (\<lambda>s1.
     Option.bind (many1 CHR '']'' s1) (\<lambda>(g1, s2).
     Option.bind (lit ''](https://github.com/'' s2) (\<lambda>s3.
     Option.bind (many1 CHR ''/'' s3) (\<lambda>(g2, s4).
     Option.bind (lit ''/'' s4) (\<lambda>s5.
     Option.bind (many1 CHR '')'' s5) (\<lambda>(g3, s6).
     Option.bind (lit '')'' s6) (\<lambda>_. Some (g1, g2, g3))))))))"

text \<open>\<open>line.match(re)\<close> without the \<open>g\<close> flag: the match at the leftmost start position.\<close>

fun matchLine :: "string \<Rightarrow> (string \<times> string \<times> string) option" where
  "matchLine [] = matchAt []"
| "matchLine (c # cs) =
     (case matchAt (c # cs) of Some m \<Rightarrow> Some m | None \<Rightarrow> matchLine cs)"

subsection \<open>Skill entries and the extractor\<close>

text \<open>
  The objects pushed by \<open>parseSkillsFromReadme\<close>.  \<open>repoInfo\<close> and \<open>safetyScore\<close> are the
  two properties \<open>validateSkill\<close> assigns later; \<open>None\<close> is a property not set.  The value
  of \<open>repoInfo\<close> is itself an option, \<open>JSON.parse\<close> being able to return \<open>null\<close>.
\<close>

record skill_entry =
  name :: string
  owner :: string
  repo :: string
  url :: string
  parsedFrom :: string
  repoInfo :: "repo_info option option"
  safetyScore :: "int option"

definition mkSkill :: "string \<Rightarrow> string \<times> string \<times> string \<Rightarrow> skill_entry" where
  "mkSkill line m =
     (case m of (g1, g2, g3) \<Rightarrow>
        \<lparr>name = trim (toLowerCase g1),
         owner = g2,
         repo = replaceGitSuffix g3,
         url = ''https://github.com/'' @ g2 @ ''/'' @ g3,
         parsedFrom = trim line,
         repoInfo = None,
         safetyScore = None\<rparr>)"

text \<open>The loop over the lines; \<open>skills\<close> is the array being pushed to.\<close>

fun parseLoop :: "string list \<Rightarrow> skill_entry list \<Rightarrow> skill_entry list" where
  "parseLoop [] skills = skills"
| "parseLoop (line # rest) skills =
     (case matchLine line of
        None \<Rightarrow> parseLoop rest skills
      | Some m \<Rightarrow> parseLoop rest (skills @ [mkSkill line m]))"

definition parseSkillsFromReadme :: "string \<Rightarrow> skill_entry list" where
  "parseSkillsFromReadme content = parseLoop (splitLines [] content) []"

subsection \<open>The environment and the files\<close>

text \<open>A JavaScript \<open>Error\<close> with its message: the value of a \<open>throw\<close> or a rejection.\<close>

datatype error = Error string

fun message :: "error \<Rightarrow> string" where
  "message (Error m) = m"

text \<open>
  What \<open>https.get\<close> yields for a URL: an \<open>'error'\<close> event, or a response with its status
  code and body.
\<close>

datatype response = RequestFailed string | Response nat string

text \<open>
  The file \<open>approved-skills.json\<close> as \<open>saveCache\<close> writes it, and a line of \<open>audit.log\<close>
  (timestamp, skill name, result, reason, user confirmation).
\<close>

record cache =
  timestamp :: int
  skills :: "skill_entry list"

type_synonym audit_line = "int \<times> string \<times> string \<times> string \<times> bool"

text \<open>
  What a call reads from outside and never changes: the clock (\<open>Date.now()\<close>, taken at
  one instant for the call), the network, the decoders \<open>JSON.parse\<close> and
  \<open>Buffer.from(_, 'base64')\<close>, which are library code and enter as functions, and whether
  the two files can be written.  \<open>parseReadme\<close> is \<open>JSON.parse\<close> of the response followed
  by the decoding of its \<open>content\<close> property; either may throw.
\<close>

record env =
  clock :: int
  transport :: "string \<Rightarrow> response"
  parseReadme :: "string \<Rightarrow> error + string"
  parseRepoInfo :: "string \<Rightarrow> error + repo_info option"
  cacheWritable :: bool
  auditWritable :: bool

text \<open>
  What a call changes: the cache file (\<open>None\<close> when it is missing or does not parse),
  the audit log, and the requests sent, in order.
\<close>

record world =
  cacheFile :: "cache option"
  auditLog :: "audit_line list"
  requests :: "string list"

definition cacheTimeout :: int where
  "cacheTimeout = 60 * 60 * 1000"

definition awesomeSkillsUrl :: string where
  "awesomeSkillsUrl =
     ''https://api.github.com/repos/VoltAgent/awesome-openclaw-skills/contents/README.md''"

text \<open>
  The decimal digits of a status code, for \<open>`HTTP ${res.statusCode}: ${data}`\<close>;
  \<open>digitChar\<close> is only applied to numbers below 10.
\<close>

definition digitChar :: "nat \<Rightarrow> char" where
  "digitChar d = ''0123456789'' ! d"

function showNat :: "nat \<Rightarrow> string" where
  "showNat n = (if n < 10 then [digitChar n] else showNat (n div 10) @ [digitChar (n mod 10)])"
  by pat_completeness auto
termination
  by (relation "measure id") auto

definition httpRequest :: "env \<Rightarrow> string \<Rightarrow> world \<Rightarrow> world \<times> (error + string)" where
  "httpRequest e u w =
     (w\<lparr>requests := requests w @ [u]\<rparr>,
      case transport e u of
        RequestFailed m \<Rightarrow> Inl (Error m)
      | Response statusCode d \<Rightarrow>
          if statusCode \<ge> 200 \<and> statusCode < 300 then Inr d
          else Inl (Error (''HTTP '' @ showNat statusCode @ '': '' @ d)))"

definition loadCache :: "world \<Rightarrow> cache option" where
  "loadCache w = cacheFile w"

definition saveCache :: "env \<Rightarrow> skill_entry list \<Rightarrow> world \<Rightarrow> world" where
  "saveCache e sk w =
     (if cacheWritable e then w\<lparr>cacheFile := Some \<lparr>timestamp = clock e, skills = sk\<rparr>\<rparr>
      else w)"

definition logAttempt :: "env \<Rightarrow> string \<Rightarrow> string \<Rightarrow> string \<Rightarrow> bool \<Rightarrow> world \<Rightarrow> world" where
  "logAttempt e skillName result why userConfirmed w =
     (if auditWritable e
      then w\<lparr>auditLog := auditLog w @ [(clock e, skillName, result, why, userConfirmed)]\<rparr>
      else w)"

subsection \<open>fetchApprovedSkills\<close>

text \<open>The body of the \<open>try\<close> block after the cache check: request, decode, parse, save.\<close>

definition fetchRemote :: "env \<Rightarrow> world \<Rightarrow> world \<times> (error + skill_entry list)" where
  "fetchRemote e w =
     (case httpRequest e awesomeSkillsUrl w of
        (w1, Inl err) \<Rightarrow> (w1, Inl err)
      | (w1, Inr readmeContent) \<Rightarrow>
          (case parseReadme e readmeContent of
             Inl err \<Rightarrow> (w1, Inl err)
           | Inr content \<Rightarrow>
               let sk = parseSkillsFromReadme content
               in (saveCache e sk w1, Inr sk)))"

text \<open>\<open>cache && Date.now() - cache.timestamp < this.cacheTimeout\<close>.\<close>

fun isFresh :: "env \<Rightarrow> cache option \<Rightarrow> bool" where
  "isFresh e None = False"
| "isFresh e (Some c) = (clock e - timestamp c < cacheTimeout)"

definition fetchApprovedSkills_try :: "env \<Rightarrow> world \<Rightarrow> world \<times> (error + skill_entry list)" where
  "fetchApprovedSkills_try e w =
     (case loadCache w of
        None \<Rightarrow> fetchRemote e w
      | Some c \<Rightarrow> if isFresh e (Some c) then (w, Inr (skills c)) else fetchRemote e w)"

definition fetchApprovedSkills :: "env \<Rightarrow> world \<Rightarrow> world \<times> (error + skill_entry list)" where
  "fetchApprovedSkills e w =
     (case fetchApprovedSkills_try e w of
        (w1, Inr sk) \<Rightarrow> (w1, Inr sk)
      | (w1, Inl err) \<Rightarrow>
          (case loadCache w1 of
             Some c \<Rightarrow> (w1, Inr (skills c))
           | None \<Rightarrow> (w1, Inl (Error ''Cannot validate skills - no approved list available''))))"

subsection \<open>fetchRepoInfo and validateSkill\<close>

definition repoUrl :: "string \<Rightarrow> string \<Rightarrow> string" where
  "repoUrl ow rp = ''https://api.github.com/repos/'' @ ow @ ''/'' @ rp"

definition fetchRepoInfo_try :: "env \<Rightarrow> string \<Rightarrow> string \<Rightarrow> world \<Rightarrow> world \<times> (error + repo_info option)" where
  "fetchRepoInfo_try e ow rp w =
     (case httpRequest e (repoUrl ow rp) w of
        (w1, Inl err) \<Rightarrow> (w1, Inl err)
      | (w1, Inr d) \<Rightarrow> (w1, parseRepoInfo e d))"

definition fetchRepoInfo :: "env \<Rightarrow> string \<Rightarrow> string \<Rightarrow> world \<Rightarrow> world \<times> (error + repo_info option)" where
  "fetchRepoInfo e ow rp w =
     (case fetchRepoInfo_try e ow rp w of
        (w1, Inl err) \<Rightarrow> (w1, Inr (Some emptyInfo))
      | (w1, Inr info) \<Rightarrow> (w1, Inr info))"

text \<open>
  The object \<open>validateSkill\<close> returns; a property left out of the literal is \<open>None\<close>.
  \<open>score\<close> is the property \<open>safetyScore\<close> of the result, renamed apart from the one of
  the entry.
\<close>

record validation_result =
  approved :: bool
  reason :: "string option"
  skill :: "skill_entry option"
  score :: "int option"

text \<open>The predicate given to \<open>approvedSkills.find\<close>.\<close>

definition matchesSkill :: "string \<Rightarrow> skill_entry \<Rightarrow> bool" where
  "matchesSkill normalizedName s \<longleftrightarrow>
     name s = normalizedName
     \<or> toLowerCase (repo s) = normalizedName
     \<or> includes_str (toLowerCase (repo s)) normalizedName"

text \<open>
  \<open>validateSkill(skillName)\<close>.  The two assignments \<open>skill.repoInfo = repoInfo\<close> and
  \<open>skill.safetyScore = safetyScore\<close> act on the object found in the list, which is the
  object the result carries.  An exception inside the \<open>try\<close> is logged and thrown again.
\<close>

definition validateSkill :: "env \<Rightarrow> string \<Rightarrow> world \<Rightarrow> world \<times> (error + validation_result)" where
  "validateSkill e skillName w =
     (let normalizedName = trim (toLowerCase skillName) in
      case fetchApprovedSkills e w of
        (w1, Inl err) \<Rightarrow> (logAttempt e skillName ''ERROR'' (message err) False w1, Inl err)
      | (w1, Inr approvedSkills) \<Rightarrow>
          (case find (matchesSkill normalizedName) approvedSkills of
             None \<Rightarrow>
               (logAttempt e skillName ''REJECTED'' ''Not found in awesome-openclaw-skills'' False w1,
                Inr \<lparr>approved = False,
                     reason = Some ''Not found in awesome-openclaw-skills repository'',
                     skill = None, score = None\<rparr>)
           | Some found \<Rightarrow>
               (case fetchRepoInfo e (owner found) (repo found) w1 of
                  (w2, Inl err) \<Rightarrow>
                    (logAttempt e skillName ''ERROR'' (message err) False w2, Inl err)
                | (w2, Inr info) \<Rightarrow>
                    let found1 = found\<lparr>repoInfo := Some info\<rparr>;
                        safety = calculateSafetyScore (clock e) info;
                        found2 = found1\<lparr>safetyScore := Some safety\<rparr>
                    in (w2, Inr \<lparr>approved = True, reason = None,
                                 skill = Some found2, score = Some safety\<rparr>))))"

subsection \<open>The lookup rule as the specification words it\<close>

text \<open>
  Three tiers, each searched over the whole list before the next: name equal to the
  query, else repo equal to it without regard to case, else repo containing it.
\<close>

definition tieredLookup :: "string \<Rightarrow> skill_entry list \<Rightarrow> skill_entry option" where
  "tieredLookup q xs =
     (case find (\<lambda>s. name s = q) xs of
        Some s \<Rightarrow> Some s
      | None \<Rightarrow>
          (case find (\<lambda>s. toLowerCase (repo s) = q) xs of
             Some s \<Rightarrow> Some s
           | None \<Rightarrow> find (\<lambda>s. includes_str (repo s) q) xs))"

subsection \<open>The link pattern as the specification words it\<close>

text \<open>
  A link is the text \<open>[label](https://github.com/owner/segment)\<close> with a non-empty label
  free of \<open>]\<close>, a non-empty owner free of \<open>/\<close> and a non-empty segment free of \<open>)\<close>.  A
  line matches the pattern when a link starts at some position of it; the link a line
  is read for is the one at the leftmost such position.
\<close>

definition linkText :: "string \<Rightarrow> string \<Rightarrow> string \<Rightarrow> string" where
  "linkText label ow seg = ''['' @ label @ ''](https://github.com/'' @ ow @ ''/'' @ seg @ '')''"

definition wellFormedLink :: "string \<Rightarrow> string \<Rightarrow> string \<Rightarrow> bool" where
  "wellFormedLink label ow seg \<longleftrightarrow>
     label \<noteq> [] \<and> CHR '']'' \<notin> set label
     \<and> ow \<noteq> [] \<and> CHR ''/'' \<notin> set ow
     \<and> seg \<noteq> [] \<and> CHR '')'' \<notin> set seg"

definition linkAt :: "string \<Rightarrow> nat \<Rightarrow> string \<Rightarrow> string \<Rightarrow> string \<Rightarrow> bool" where
  "linkAt line i label ow seg \<longleftrightarrow>
     i \<le> length line \<and> wellFormedLink label ow seg
     \<and> (\<exists>post. drop i line = linkText label ow seg @ post)"

definition matchesPattern :: "string \<Rightarrow> bool" where
  "matchesPattern line \<longleftrightarrow> (\<exists>i label ow seg. linkAt line i label ow seg)"

definition firstLink :: "string \<Rightarrow> string \<Rightarrow> string \<Rightarrow> string \<Rightarrow> bool" where
  "firstLink line label ow seg \<longleftrightarrow>
     (\<exists>i. linkAt line i label ow seg
          \<and> (\<forall>j<i. \<forall>l' o' s'. \<not> linkAt line j l' o' s'))"

subsection \<open>Inputs of the test suite\<close>

text \<open>
  The metadata objects and the sample document of the repository's test suite for the
  validator, and small variations of them, as concrete inputs for the theorems.
\<close>

definition testNow :: int where
  "testNow = 1767225600000"

definition highQualityRepo :: "int \<Rightarrow> repo_info" where
  "highQualityRepo now =
     \<lparr>stargazers_count = Some 150, forks_count = Some 25,
      updated_at = Some (now - 10 * 24 * 60 * 60 * 1000),
      description = Some ''A well-maintained OpenClaw skill for weather forecasting'',
      license = Some ''MIT''\<rparr>"

definition lowQualityRepo :: "int \<Rightarrow> repo_info" where
  "lowQualityRepo now =
     \<lparr>stargazers_count = Some 1, forks_count = Some 0,
      updated_at = Some (now - 200 * 24 * 60 * 60 * 1000),
      description = Some ''Test'',
      license = None\<rparr>"

definition nl :: string where
  "nl = [CHR 0x0A]"

definition sampleReadme :: string where
  "sampleReadme =
     nl @ ''# Awesome OpenClaw Skills'' @ nl @ nl @ ''## Community Skills'' @ nl @ nl
     @ ''- [weather-forecast](https://github.com/weather-dev/openclaw-weather) - Get weather forecasts'' @ nl
     @ ''- [task-manager](https://github.com/productivity/openclaw-tasks) - Manage your tasks'' @ nl
     @ ''- [crypto-prices](https://github.com/crypto-dev/price-tracker.git) - Track cryptocurrency prices'' @ nl"

definition gitLine :: string where
  "gitLine = ''- [crypto-prices](https://github.com/crypto-dev/price-tracker.git) - Track''"

definition taskHelperEntry :: skill_entry where
  "taskHelperEntry =
     \<lparr>name = ''task-helper'', owner = ''dev'', repo = ''My-Tasks'',
      url = ''https://github.com/dev/My-Tasks'',
      parsedFrom = ''- [task-helper](https://github.com/dev/My-Tasks)'',
      repoInfo = None, safetyScore = None\<rparr>"

definition tasksEntry :: skill_entry where
  "tasksEntry =
     \<lparr>name = ''tasks'', owner = ''other'', repo = ''todo'',
      url = ''https://github.com/other/todo'',
      parsedFrom = ''- [tasks](https://github.com/other/todo)'',
      repoInfo = None, safetyScore = None\<rparr>"

definition approvedFixture :: "skill_entry list" where
  "approvedFixture = [taskHelperEntry, tasksEntry]"

text \<open>
  An environment without network, and one that serves a one-line document and the
  metadata of the high quality repository, with decoders that do nothing.
\<close>

definition offlineEnv :: "int \<Rightarrow> env" where
  "offlineEnv t =
     \<lparr>clock = t,
      transport = (\<lambda>u. RequestFailed ''getaddrinfo ENOTFOUND api.github.com''),
      parseReadme = (\<lambda>d. Inl (Error ''Unexpected end of JSON input'')),
      parseRepoInfo = (\<lambda>d. Inl (Error ''Unexpected end of JSON input'')),
      cacheWritable = True, auditWritable = True\<rparr>"

definition onlineEnv :: "int \<Rightarrow> env" where
  "onlineEnv t =
     \<lparr>clock = t,
      transport = (\<lambda>u. if u = awesomeSkillsUrl then Response 200 gitLine
                        else Response 200 ''{}''),
      parseReadme = (\<lambda>d. Inr d),
      parseRepoInfo = (\<lambda>d. Inr (Some (highQualityRepo t))),
      cacheWritable = True, auditWritable = True\<rparr>"

text \<open>A world whose cache was written at time \<open>t\<close>, and one with no cache file.\<close>

definition cachedWorld :: "int \<Rightarrow> world" where
  "cachedWorld t =
     \<lparr>cacheFile = Some \<lparr>timestamp = t, skills = approvedFixture\<rparr>,
      auditLog = [], requests = []\<rparr>"

definition freshWorld :: world where
  "freshWorld = \<lparr>cacheFile = None, auditLog = [], requests = []\<rparr>"

subsection \<open>Failure of a fetch, and the entry a result carries\<close>

text \<open>
  The remote fetch of the list fails when the request fails, the status is outside
  \<open>200..299\<close>, or the response does not decode; likewise the metadata fetch.
\<close>

definition remoteFetchFails :: "env \<Rightarrow> bool" where
  "remoteFetchFails e \<longleftrightarrow>
     (case transport e awesomeSkillsUrl of
        RequestFailed m \<Rightarrow> True
      | Response statusCode d \<Rightarrow>
          statusCode < 200 \<or> statusCode \<ge> 300 \<or> isl (parseReadme e d))"

definition metadataFetchFails :: "env \<Rightarrow> string \<Rightarrow> string \<Rightarrow> bool" where
  "metadataFetchFails e ow rp \<longleftrightarrow>
     (case transport e (repoUrl ow rp) of
        RequestFailed m \<Rightarrow> True
      | Response statusCode d \<Rightarrow>
          statusCode < 200 \<or> statusCode \<ge> 300 \<or> isl (parseRepoInfo e d))"

definition returnedSkill :: "world \<times> (error + validation_result) \<Rightarrow> skill_entry option" where
  "returnedSkill x = (case snd x of Inl err \<Rightarrow> None | Inr r \<Rightarrow> skill r)"

section \<open>The safety score\<close>

lemmas bucket_defs = bucketSum_def orZero_def starsBucket_def forksBucket_def
  recencyBucket_def descriptionBucket_def licenseBucket_def daysSinceUpdate_def

lemma score_truthy:
  "truthyCount (stargazers_count r) \<Longrightarrow> calculateSafetyScore now (Some r) = bucketSum now r"
  by (cases "stargazers_count r"; cases "forks_count r"; cases "updated_at r";
      cases "description r"; cases "license r")
     (simp_all add: bucket_defs Let_def)

lemma bucketSum_range: "0 \<le> bucketSum now r \<and> bucketSum now r \<le> 10"
  by (simp add: bucket_defs split: option.splits)

lemma score_range: "0 \<le> calculateSafetyScore now info \<and> calculateSafetyScore now info \<le> 10"
proof (cases info)
  case None
  then show ?thesis by simp
next
  case (Some r)
  show ?thesis
  proof (cases "truthyCount (stargazers_count r)")
    case True
    then show ?thesis using Some bucketSum_range [of now r] by (simp only: score_truthy)
  next
    case False
    then show ?thesis using Some by simp
  qed
qed

lemma starsBucket_mono: "a \<le> b \<Longrightarrow> starsBucket a \<le> starsBucket b"
  by (simp add: starsBucket_def)

lemma forksBucket_mono: "a \<le> b \<Longrightarrow> forksBucket a \<le> forksBucket b"
  by (simp add: forksBucket_def)

lemma recencyBucket_antimono: "a \<le> b \<Longrightarrow> recencyBucket b \<le> recencyBucket a"
  by (simp add: recencyBucket_def)

lemma highQualityRepo_score: "calculateSafetyScore testNow (Some (highQualityRepo testNow)) = 10"
  by (simp add: highQualityRepo_def testNow_def daysSinceUpdate_def)

lemma lowQualityRepo_score: "calculateSafetyScore testNow (Some (lowQualityRepo testNow)) = 0"
  by (simp add: lowQualityRepo_def testNow_def daysSinceUpdate_def)

text \<open>
  Claim C3, as stated: for every metadata object the score is the sum of the five
  buckets.  It fails for an object without a star count: the test suite's high quality
  repository with \<open>stargazers_count\<close> removed scores 0, while its buckets for forks,
  recency, description and license add up to 7.
\<close>

theorem calculateSafetyScore_not_additive_without_stars:
  "calculateSafetyScore testNow (Some ((highQualityRepo testNow)\<lparr>stargazers_count := None\<rparr>)) = 0
   \<and> bucketSum testNow ((highQualityRepo testNow)\<lparr>stargazers_count := None\<rparr>) = 7"
  by (simp add: highQualityRepo_def testNow_def bucket_defs)

text \<open>
  Claim C3, amended: for every metadata object the score is an integer between 0 and
  10; when the star count is present and not zero it is the sum of the buckets for stars
  (at least 100: 3, at least 20: 2, at least 5: 1), forks (at least 10: 2, at least 2: 1),
  days since the last update (at most 30: 3, at most 90: 2, at most 180: 1), a
  description longer than 10 characters (1) and a license (1); when the star count is
  absent it is 0; and a repository with 150 stars, 25 forks, updated 10 days ago, with
  a description longer than 10 characters and a license scores at least 8.
\<close>

theorem calculateSafetyScore_buckets:
  "0 \<le> calculateSafetyScore now info \<and> calculateSafetyScore now info \<le> 10
   \<and> (\<forall>r s. info = Some r \<and> stargazers_count r = Some s \<and> s \<noteq> 0 \<longrightarrow>
         calculateSafetyScore now info =
           starsBucket s + orZero forksBucket (forks_count r)
           + orZero recencyBucket (daysSinceUpdate now (updated_at r))
           + descriptionBucket (description r) + licenseBucket (license r))
   \<and> (\<forall>r. info = Some r \<and> stargazers_count r = None \<longrightarrow> calculateSafetyScore now info = 0)
   \<and> (\<forall>r d l. info = Some r \<and> stargazers_count r = Some 150 \<and> forks_count r = Some 25
         \<and> updated_at r = Some (now - 10 * 24 * 60 * 60 * 1000)
         \<and> description r = Some d \<and> length d > 10 \<and> license r = Some l \<longrightarrow>
         calculateSafetyScore now info \<ge> 8)"
proof (intro conjI allI impI)
  show "0 \<le> calculateSafetyScore now info" using score_range by blast
  show "calculateSafetyScore now info \<le> 10" using score_range by blast
next
  fix r s
  assume a: "info = Some r \<and> stargazers_count r = Some s \<and> s \<noteq> 0"
  then have "truthyCount (stargazers_count r)" by simp
  then have "calculateSafetyScore now (Some r) = bucketSum now r" by (rule score_truthy)
  with a show "calculateSafetyScore now info =
           starsBucket s + orZero forksBucket (forks_count r)
           + orZero recencyBucket (daysSinceUpdate now (updated_at r))
           + descriptionBucket (description r) + licenseBucket (license r)"
    by (simp add: bucketSum_def orZero_def)
next
  fix r
  assume "info = Some r \<and> stargazers_count r = None"
  then show "calculateSafetyScore now info = 0" by simp
next
  fix r d l
  assume a: "info = Some r \<and> stargazers_count r = Some 150 \<and> forks_count r = Some 25
         \<and> updated_at r = Some (now - 10 * 24 * 60 * 60 * 1000)
         \<and> description r = Some d \<and> length d > 10 \<and> license r = Some l"
  then show "calculateSafetyScore now info \<ge> 8"
    by (auto simp add: daysSinceUpdate_def Let_def)
qed

text \<open>
  The amended claim C3 at the high quality repository of the test suite: all five
  hypotheses of the example hold there, the score is the sum of the buckets, and it is 10.
\<close>

theorem calculateSafetyScore_buckets_witness:
  "stargazers_count (highQualityRepo testNow) = Some 150
   \<and> forks_count (highQualityRepo testNow) = Some 25
   \<and> updated_at (highQualityRepo testNow) = Some (testNow - 10 * 24 * 60 * 60 * 1000)
   \<and> lengthGt (description (highQualityRepo testNow)) 10
   \<and> license (highQualityRepo testNow) = Some ''MIT''
   \<and> 8 \<le> calculateSafetyScore testNow (Some (highQualityRepo testNow))
   \<and> calculateSafetyScore testNow (Some (highQualityRepo testNow)) \<le> 10
   \<and> calculateSafetyScore testNow (Some (highQualityRepo testNow))
       = starsBucket 150 + orZero forksBucket (Some 25)
         + orZero recencyBucket (daysSinceUpdate testNow (Some (testNow - 10 * 24 * 60 * 60 * 1000)))
         + descriptionBucket (description (highQualityRepo testNow)) + licenseBucket (Some ''MIT'')"
  using calculateSafetyScore_buckets [of testNow "Some (highQualityRepo testNow)"]
  by (simp add: highQualityRepo_def)

lemma score_mono_present:
  "(s1 \<le> s2 \<longrightarrow>
      calculateSafetyScore now (Some (r\<lparr>stargazers_count := Some s1\<rparr>))
      \<le> calculateSafetyScore now (Some (r\<lparr>stargazers_count := Some s2\<rparr>)))
   \<and> (f1 \<le> f2 \<longrightarrow>
      calculateSafetyScore now (Some (r\<lparr>forks_count := Some f1\<rparr>))
      \<le> calculateSafetyScore now (Some (r\<lparr>forks_count := Some f2\<rparr>)))
   \<and> (t1 \<le> t2 \<longrightarrow>
      calculateSafetyScore now (Some (r\<lparr>updated_at := Some t1\<rparr>))
      \<le> calculateSafetyScore now (Some (r\<lparr>updated_at := Some t2\<rparr>)))"
proof (intro conjI impI)
  assume le: "s1 \<le> s2"
  show "calculateSafetyScore now (Some (r\<lparr>stargazers_count := Some s1\<rparr>))
      \<le> calculateSafetyScore now (Some (r\<lparr>stargazers_count := Some s2\<rparr>))"
  proof (cases "s1 = 0")
    case True
    then show ?thesis
      using score_range [of now "Some (r\<lparr>stargazers_count := Some s2\<rparr>)"] by simp
  next
    case False
    with le have "s2 \<noteq> 0" by simp
    with False show ?thesis
      using starsBucket_mono [OF le]
      by (simp add: score_truthy bucketSum_def orZero_def del: calculateSafetyScore.simps)
  qed
next
  assume le: "f1 \<le> f2"
  show "calculateSafetyScore now (Some (r\<lparr>forks_count := Some f1\<rparr>))
      \<le> calculateSafetyScore now (Some (r\<lparr>forks_count := Some f2\<rparr>))"
  proof (cases "truthyCount (stargazers_count r)")
    case True
    then show ?thesis
      using forksBucket_mono [OF le]
      by (simp add: score_truthy bucketSum_def orZero_def del: calculateSafetyScore.simps)
  next
    case False
    then show ?thesis by simp
  qed
next
  assume le: "t1 \<le> t2"
  then have d: "real_of_int (now - t2) / (1000 * 60 * 60 * 24)
                \<le> real_of_int (now - t1) / (1000 * 60 * 60 * 24)"
    by (simp add: divide_right_mono)
  show "calculateSafetyScore now (Some (r\<lparr>updated_at := Some t1\<rparr>))
      \<le> calculateSafetyScore now (Some (r\<lparr>updated_at := Some t2\<rparr>))"
  proof (cases "truthyCount (stargazers_count r)")
    case True
    then show ?thesis
      using recencyBucket_antimono [OF d]
      by (simp add: score_truthy bucketSum_def orZero_def daysSinceUpdate_def
               del: calculateSafetyScore.simps)
  next
    case False
    then show ?thesis by simp
  qed
qed

lemma score_absent_least:
  "calculateSafetyScore now (Some (r\<lparr>stargazers_count := None\<rparr>))
      \<le> calculateSafetyScore now (Some (r\<lparr>stargazers_count := x\<rparr>))
   \<and> calculateSafetyScore now (Some (r\<lparr>forks_count := None\<rparr>))
      \<le> calculateSafetyScore now (Some (r\<lparr>forks_count := y\<rparr>))
   \<and> calculateSafetyScore now (Some (r\<lparr>updated_at := None\<rparr>))
      \<le> calculateSafetyScore now (Some (r\<lparr>updated_at := z\<rparr>))"
proof (intro conjI)
  show "calculateSafetyScore now (Some (r\<lparr>stargazers_count := None\<rparr>))
      \<le> calculateSafetyScore now (Some (r\<lparr>stargazers_count := x\<rparr>))"
    using score_range [of now "Some (r\<lparr>stargazers_count := x\<rparr>)"] by simp
  show "calculateSafetyScore now (Some (r\<lparr>forks_count := None\<rparr>))
      \<le> calculateSafetyScore now (Some (r\<lparr>forks_count := y\<rparr>))"
  proof (cases "truthyCount (stargazers_count r)")
    case True
    then show ?thesis
      by (cases y) (simp_all add: score_truthy bucketSum_def orZero_def forksBucket_def
                         del: calculateSafetyScore.simps)
  next
    case False
    then show ?thesis by simp
  qed
  show "calculateSafetyScore now (Some (r\<lparr>updated_at := None\<rparr>))
      \<le> calculateSafetyScore now (Some (r\<lparr>updated_at := z\<rparr>))"
  proof (cases "truthyCount (stargazers_count r)")
    case True
    then show ?thesis
      by (cases z) (simp_all add: score_truthy bucketSum_def orZero_def recencyBucket_def
                         daysSinceUpdate_def del: calculateSafetyScore.simps)
  next
    case False
    then show ?thesis by simp
  qed
qed

text \<open>
  Claim C9: the score is monotonic non-decreasing in each trust signal separately.  Of
  two metadata objects that differ only in the star count, only in the fork count, or
  only in the time of the last update, the one with more stars, more forks, or the later
  update (fewer days since the update) never scores lower; and an object in which one of
  the three signals is absent never scores higher than the same object with any value
  of that signal.
\<close>

theorem calculateSafetyScore_monotone:
  "(s1 \<le> s2 \<longrightarrow>
      calculateSafetyScore now (Some (r\<lparr>stargazers_count := Some s1\<rparr>))
      \<le> calculateSafetyScore now (Some (r\<lparr>stargazers_count := Some s2\<rparr>)))
   \<and> (f1 \<le> f2 \<longrightarrow>
      calculateSafetyScore now (Some (r\<lparr>forks_count := Some f1\<rparr>))
      \<le> calculateSafetyScore now (Some (r\<lparr>forks_count := Some f2\<rparr>)))
   \<and> (t1 \<le> t2 \<longrightarrow>
      calculateSafetyScore now (Some (r\<lparr>updated_at := Some t1\<rparr>))
      \<le> calculateSafetyScore now (Some (r\<lparr>updated_at := Some t2\<rparr>)))
   \<and> calculateSafetyScore now (Some (r\<lparr>stargazers_count := None\<rparr>))
      \<le> calculateSafetyScore now (Some (r\<lparr>stargazers_count := x\<rparr>))
   \<and> calculateSafetyScore now (Some (r\<lparr>forks_count := None\<rparr>))
      \<le> calculateSafetyScore now (Some (r\<lparr>forks_count := y\<rparr>))
   \<and> calculateSafetyScore now (Some (r\<lparr>updated_at := None\<rparr>))
      \<le> calculateSafetyScore now (Some (r\<lparr>updated_at := z\<rparr>))"
  using score_mono_present [of s1 s2 now r f1 f2 t1 t2] score_absent_least [of now r x y z]
  by blast

text \<open>
  Claim C9 at the low quality repository of the test suite, raised in turn to 150 stars,
  to 25 forks, and to an update 190 days later (10 days before the reading of the clock):
  the three hypotheses hold and each score is at least the score before.
\<close>

theorem calculateSafetyScore_monotone_witness:
  "(1::nat) \<le> 150 \<and> (0::nat) \<le> 25
   \<and> testNow - 200 * 24 * 60 * 60 * 1000 \<le> testNow - 10 * 24 * 60 * 60 * 1000
   \<and> calculateSafetyScore testNow (Some ((lowQualityRepo testNow)\<lparr>stargazers_count := Some 1\<rparr>))
       \<le> calculateSafetyScore testNow (Some ((lowQualityRepo testNow)\<lparr>stargazers_count := Some 150\<rparr>))
   \<and> calculateSafetyScore testNow (Some ((lowQualityRepo testNow)\<lparr>forks_count := Some 0\<rparr>))
       \<le> calculateSafetyScore testNow (Some ((lowQualityRepo testNow)\<lparr>forks_count := Some 25\<rparr>))
   \<and> calculateSafetyScore testNow
         (Some ((lowQualityRepo testNow)\<lparr>updated_at := Some (testNow - 200 * 24 * 60 * 60 * 1000)\<rparr>))
       \<le> calculateSafetyScore testNow
         (Some ((lowQualityRepo testNow)\<lparr>updated_at := Some (testNow - 10 * 24 * 60 * 60 * 1000)\<rparr>))"
  using calculateSafetyScore_monotone
          [where ?s1.0 = 1 and ?s2.0 = 150 and now = testNow and r = "lowQualityRepo testNow"
             and ?f1.0 = 0 and ?f2.0 = 25
             and ?t1.0 = "testNow - 200 * 24 * 60 * 60 * 1000"
             and ?t2.0 = "testNow - 10 * 24 * 60 * 60 * 1000"]
  by simp

text \<open>
  Claim C10: for every metadata object whose \<open>stargazers_count\<close> is present and equal to
  0, the score is exactly 0 whatever \<open>forks_count\<close>, \<open>updated_at\<close>, \<open>description\<close> and
  \<open>license\<close> are: a zero star count suppresses every bucket, not only the star bucket.
\<close>

theorem calculateSafetyScore_zero_stars:
  "stargazers_count r = Some 0 \<Longrightarrow> calculateSafetyScore now (Some r) = 0"
  by simp

text \<open>
  Claim C10 at the high quality repository of the test suite with its star count set to
  0: the score is 0, although the other four buckets add up to 7.
\<close>

theorem calculateSafetyScore_zero_stars_witness:
  "stargazers_count ((highQualityRepo testNow)\<lparr>stargazers_count := Some 0\<rparr>) = Some 0
   \<and> calculateSafetyScore testNow (Some ((highQualityRepo testNow)\<lparr>stargazers_count := Some 0\<rparr>)) = 0
   \<and> bucketSum testNow ((highQualityRepo testNow)\<lparr>stargazers_count := Some 0\<rparr>) = 7"
proof -
  have "bucketSum testNow ((highQualityRepo testNow)\<lparr>stargazers_count := Some 0\<rparr>) = 7"
    by (simp add: highQualityRepo_def testNow_def bucket_defs)
  then show ?thesis
    using calculateSafetyScore_zero_stars
            [of "(highQualityRepo testNow)\<lparr>stargazers_count := Some 0\<rparr>" testNow]
    by simp
qed

section \<open>The extractor\<close>

subsection \<open>The lines of a document\<close>

lemma splitLines_nonempty: "splitLines cur s \<noteq> []"
  by (induction s arbitrary: cur) auto

lemma joinLines_Cons: "ls \<noteq> [] \<Longrightarrow> joinLines (l # ls) = l @ CHR 0x0A # joinLines ls"
  by (cases ls) auto

lemma splitLines_join: "joinLines (splitLines cur s) = cur @ s"
  by (induction s arbitrary: cur) (auto simp: joinLines_Cons splitLines_nonempty)

lemma splitLines_no_newline:
  "l \<in> set (splitLines cur s) \<Longrightarrow> CHR 0x0A \<notin> set cur \<Longrightarrow> CHR 0x0A \<notin> set l"
proof (induction s arbitrary: cur)
  case Nil
  then show ?case by simp
next
  case (Cons c cs)
  show ?case
  proof (cases "c = CHR 0x0A")
    case True
    with Cons.prems have "l = cur \<or> l \<in> set (splitLines [] cs)" by simp
    then show ?thesis using Cons.prems(2) Cons.IH [of "[]"] by auto
  next
    case False
    with Cons.prems have "l \<in> set (splitLines (cur @ [c]) cs)" by simp
    then show ?thesis using False Cons.prems(2) Cons.IH [of "cur @ [c]"] by auto
  qed
qed

subsection \<open>The anchored match is the link pattern\<close>

lemma lit_iff: "lit p s = Some r \<longleftrightarrow> s = p @ r"
  by (induction p s rule: lit.induct) auto

lemma many1_SomeD:
  "many1 c s = Some (g, r) \<Longrightarrow> g \<noteq> [] \<and> c \<notin> set g \<and> s = g @ r"
  by (auto simp: many1_def Let_def split: if_splits dest: set_takeWhileD)

lemma many1_run:
  assumes "g \<noteq> []" and "c \<notin> set g"
  shows "many1 c (g @ c # r) = Some (g, c # r)"
proof -
  have t: "takeWhile (\<lambda>x. x \<noteq> c) (g @ c # r) = g"
    using assms(2) by (subst takeWhile_append2) auto
  have d: "dropWhile (\<lambda>x. x \<noteq> c) (g @ c # r) = c # r"
    using assms(2) by (subst dropWhile_append2) auto
  show ?thesis using assms(1) by (simp add: many1_def t d)
qed

lemma matchAt_complete:
  assumes "wellFormedLink label ow seg"
  shows "matchAt (linkText label ow seg @ post) = Some (label, ow, seg)"
proof -
  from assms have a: "label \<noteq> []" "CHR '']'' \<notin> set label" "ow \<noteq> []" "CHR ''/'' \<notin> set ow"
      "seg \<noteq> []" "CHR '')'' \<notin> set seg"
    by (simp_all add: wellFormedLink_def)
  have 1: "many1 CHR '']'' (label @ CHR '']'' # r) = Some (label, CHR '']'' # r)" for r
    using a by (simp add: many1_run)
  have 2: "many1 CHR ''/'' (ow @ CHR ''/'' # r) = Some (ow, CHR ''/'' # r)" for r
    using a by (simp add: many1_run)
  have 3: "many1 CHR '')'' (seg @ CHR '')'' # r) = Some (seg, CHR '')'' # r)" for r
    using a by (simp add: many1_run)
  show ?thesis
    by (simp add: matchAt_def linkText_def 1 2 3)
qed

lemma matchAt_sound:
  assumes "matchAt s = Some (label, ow, seg)"
  shows "wellFormedLink label ow seg \<and> (\<exists>post. s = linkText label ow seg @ post)"
  using assms
  by (auto simp: matchAt_def bind_eq_Some_conv lit_iff wellFormedLink_def linkText_def
           dest!: many1_SomeD)

lemma linkAt_matchAt:
  "linkAt line i label ow seg
   \<longleftrightarrow> i \<le> length line \<and> matchAt (drop i line) = Some (label, ow, seg)"
  using matchAt_sound matchAt_complete by (auto simp: linkAt_def)

subsection \<open>The scan finds the leftmost link\<close>

lemma matchLine_None_iff:
  "matchLine line = None \<longleftrightarrow> (\<forall>i\<le>length line. matchAt (drop i line) = None)"
proof (induction line)
  case Nil
  then show ?case by simp
next
  case (Cons c cs)
  show ?case
  proof
    assume n: "matchLine (c # cs) = None"
    then have h: "matchAt (c # cs) = None" and t: "matchLine cs = None"
      by (auto split: option.splits)
    show "\<forall>i\<le>length (c # cs). matchAt (drop i (c # cs)) = None"
    proof (intro allI impI)
      fix i assume "i \<le> length (c # cs)"
      then show "matchAt (drop i (c # cs)) = None"
        using h t Cons.IH by (cases i) auto
    qed
  next
    assume a: "\<forall>i\<le>length (c # cs). matchAt (drop i (c # cs)) = None"
    then have h: "matchAt (c # cs) = None" by (metis drop0 le0)
    have "\<forall>i\<le>length cs. matchAt (drop i cs) = None"
    proof (intro allI impI)
      fix i assume "i \<le> length cs"
      then have "Suc i \<le> length (c # cs)" by simp
      with a have "matchAt (drop (Suc i) (c # cs)) = None" by blast
      then show "matchAt (drop i cs) = None" by simp
    qed
    with Cons.IH h show "matchLine (c # cs) = None" by simp
  qed
qed

lemma matchLine_Some_iff:
  "matchLine line = Some m \<longleftrightarrow>
     (\<exists>i\<le>length line. matchAt (drop i line) = Some m
        \<and> (\<forall>j<i. matchAt (drop j line) = None))"
proof (induction line)
  case Nil
  then show ?case by auto
next
  case (Cons c cs)
  show ?case
  proof (cases "matchAt (c # cs)")
    case (Some m')
    show ?thesis
    proof
      assume "matchLine (c # cs) = Some m"
      with Some have "m' = m" by simp
      with Some have "matchAt (drop 0 (c # cs)) = Some m
          \<and> (\<forall>j<0. matchAt (drop j (c # cs)) = None)" by simp
      then show "\<exists>i\<le>length (c # cs). matchAt (drop i (c # cs)) = Some m
          \<and> (\<forall>j<i. matchAt (drop j (c # cs)) = None)"
        by blast
    next
      assume "\<exists>i\<le>length (c # cs). matchAt (drop i (c # cs)) = Some m
          \<and> (\<forall>j<i. matchAt (drop j (c # cs)) = None)"
      then obtain i where i: "matchAt (drop i (c # cs)) = Some m"
          "\<forall>j<i. matchAt (drop j (c # cs)) = None"
        by blast
      have "i = 0"
      proof (rule ccontr)
        assume "i \<noteq> 0"
        then have "0 < i" by simp
        with i(2) have "matchAt (drop 0 (c # cs)) = None" by blast
        with Some show False by simp
      qed
      with i(1) Some show "matchLine (c # cs) = Some m" by simp
    qed
  next
    case None
    then have eq: "matchLine (c # cs) = matchLine cs" by simp
    show ?thesis
    proof
      assume "matchLine (c # cs) = Some m"
      with eq Cons.IH obtain i where i: "i \<le> length cs" "matchAt (drop i cs) = Some m"
          "\<forall>j<i. matchAt (drop j cs) = None" by auto
      have "\<forall>j<Suc i. matchAt (drop j (c # cs)) = None"
      proof (intro allI impI)
        fix j assume "j < Suc i"
        then show "matchAt (drop j (c # cs)) = None" using None i(3) by (cases j) auto
      qed
      with i(1,2) have "Suc i \<le> length (c # cs) \<and> matchAt (drop (Suc i) (c # cs)) = Some m
          \<and> (\<forall>j<Suc i. matchAt (drop j (c # cs)) = None)" by simp
      then show "\<exists>i\<le>length (c # cs). matchAt (drop i (c # cs)) = Some m
          \<and> (\<forall>j<i. matchAt (drop j (c # cs)) = None)"
        by blast
    next
      assume "\<exists>i\<le>length (c # cs). matchAt (drop i (c # cs)) = Some m
          \<and> (\<forall>j<i. matchAt (drop j (c # cs)) = None)"
      then obtain i where i: "i \<le> length (c # cs)" "matchAt (drop i (c # cs)) = Some m"
          "\<forall>j<i. matchAt (drop j (c # cs)) = None" by blast
      from i(2) None obtain k where k: "i = Suc k" by (cases i) auto
      have "\<forall>j<k. matchAt (drop j cs) = None"
      proof (intro allI impI)
        fix j assume "j < k"
        then have "Suc j < i" using k by simp
        with i(3) have "matchAt (drop (Suc j) (c # cs)) = None" by blast
        then show "matchAt (drop j cs) = None" by simp
      qed
      with i(1,2) k have "k \<le> length cs \<and> matchAt (drop k cs) = Some m
          \<and> (\<forall>j<k. matchAt (drop j cs) = None)"
        by simp
      then have "matchLine cs = Some m" using Cons.IH by blast
      with eq show "matchLine (c # cs) = Some m" by simp
    qed
  qed
qed

lemma matchesPattern_iff: "matchesPattern line \<longleftrightarrow> matchLine line \<noteq> None"
proof -
  have "matchesPattern line \<longleftrightarrow> (\<exists>i\<le>length line. \<exists>m. matchAt (drop i line) = Some m)"
    unfolding matchesPattern_def linkAt_matchAt by auto
  also have "\<dots> \<longleftrightarrow> \<not> (\<forall>i\<le>length line. matchAt (drop i line) = None)"
    by (simp del: split_paired_Ex)
  finally show ?thesis by (simp only: matchLine_None_iff)
qed

lemma firstLink_iff: "firstLink line label ow seg \<longleftrightarrow> matchLine line = Some (label, ow, seg)"
proof -
  have none: "(\<forall>l' o' s'. \<not> linkAt line j l' o' s') \<longleftrightarrow> matchAt (drop j line) = None"
    if "j \<le> length line" for j
    using that by (cases "matchAt (drop j line)") (auto simp: linkAt_matchAt)
  show ?thesis
  proof
    assume "firstLink line label ow seg"
    then obtain i where i: "linkAt line i label ow seg"
        "\<forall>j<i. \<forall>l' o' s'. \<not> linkAt line j l' o' s'"
      by (auto simp: firstLink_def)
    then have le: "i \<le> length line" and m: "matchAt (drop i line) = Some (label, ow, seg)"
      by (simp_all add: linkAt_matchAt)
    have "\<forall>j<i. matchAt (drop j line) = None"
      using i(2) le none by auto
    with le m show "matchLine line = Some (label, ow, seg)"
      unfolding matchLine_Some_iff by blast
  next
    assume "matchLine line = Some (label, ow, seg)"
    then obtain i where i: "i \<le> length line" "matchAt (drop i line) = Some (label, ow, seg)"
        "\<forall>j<i. matchAt (drop j line) = None"
      unfolding matchLine_Some_iff by blast
    have "\<forall>j<i. \<forall>l' o' s'. \<not> linkAt line j l' o' s'"
      using i(1,3) none by auto
    moreover have "linkAt line i label ow seg" using i by (simp add: linkAt_matchAt)
    ultimately show "firstLink line label ow seg" unfolding firstLink_def by blast
  qed
qed

subsection \<open>The loop keeps one entry per matching line\<close>

lemma parseLoop_acc: "parseLoop ls acc = acc @ parseLoop ls []"
proof (induction ls arbitrary: acc)
  case Nil
  then show ?case by simp
next
  case (Cons l ls)
  show ?case
  proof (cases "matchLine l")
    case None
    then show ?thesis using Cons.IH [of acc] by simp
  next
    case (Some m)
    then show ?thesis
      using Cons.IH [of "acc @ [mkSkill l m]"] Cons.IH [of "[mkSkill l m]"] by simp
  qed
qed

lemma parseLoop_rel:
  "list_all2 (\<lambda>line e. \<exists>m. matchLine line = Some m \<and> e = mkSkill line m)
     (filter (\<lambda>l. matchLine l \<noteq> None) ls) (parseLoop ls [])"
proof (induction ls)
  case Nil
  then show ?case by simp
next
  case (Cons l ls)
  show ?case
  proof (cases "matchLine l")
    case None
    then show ?thesis using Cons.IH by simp
  next
    case (Some m)
    have "parseLoop (l # ls) [] = mkSkill l m # parseLoop ls []"
      using Some parseLoop_acc [of ls "[mkSkill l m]"] by simp
    moreover have "\<exists>m'. matchLine l = Some m' \<and> mkSkill l m = mkSkill l m'"
      using Some by blast
    ultimately show ?thesis using Some Cons.IH by (simp del: split_paired_Ex)
  qed
qed

lemma filter_matchesPattern:
  "filter matchesPattern ls = filter (\<lambda>l. matchLine l \<noteq> None) ls"
  by (rule filter_cong) (simp_all only: matchesPattern_iff)

subsection \<open>Lower case and trimming commute\<close>

lemma upper_not_space: "c \<in> set ''ABCDEFGHIJKLMNOPQRSTUVWXYZ'' \<Longrightarrow> \<not> isWhiteSpace c"
  by (auto simp: isWhiteSpace_def)

lemma lower_not_space: "c \<in> set ''abcdefghijklmnopqrstuvwxyz'' \<Longrightarrow> \<not> isWhiteSpace c"
  by (auto simp: isWhiteSpace_def)

lemma isWhiteSpace_toLowerChar: "isWhiteSpace (toLowerChar c) = isWhiteSpace c"
proof (cases "map_of (zip ''ABCDEFGHIJKLMNOPQRSTUVWXYZ'' ''abcdefghijklmnopqrstuvwxyz'') c")
  case None
  then show ?thesis by (simp add: toLowerChar_def)
next
  case (Some l)
  then have "(c, l) \<in> set (zip ''ABCDEFGHIJKLMNOPQRSTUVWXYZ'' ''abcdefghijklmnopqrstuvwxyz'')"
    by (rule map_of_SomeD)
  then have "c \<in> set ''ABCDEFGHIJKLMNOPQRSTUVWXYZ''" and "l \<in> set ''abcdefghijklmnopqrstuvwxyz''"
    by (auto dest: set_zip_leftD set_zip_rightD simp del: zip_Cons_Cons)
  then have "\<not> isWhiteSpace c" and "\<not> isWhiteSpace l"
    by (simp_all only: upper_not_space lower_not_space not_False_eq_True)
  moreover have "toLowerChar c = l" using Some by (simp only: toLowerChar_def option.case)
  ultimately show ?thesis by simp
qed

lemma trim_toLowerCase: "trim (toLowerCase s) = toLowerCase (trim s)"
proof -
  have comp: "isWhiteSpace \<circ> toLowerChar = isWhiteSpace"
    by (rule ext) (simp add: isWhiteSpace_toLowerChar)
  show ?thesis
    by (simp add: trim_def toLowerCase_def dropWhile_map rev_map comp)
qed

lemma replaceGitSuffix_cases:
  "(\<exists>b. seg = b @ ''.git'' \<and> replaceGitSuffix seg = b)
   \<or> (\<not> suffix ''.git'' seg \<and> replaceGitSuffix seg = seg)"
  by (auto simp: replaceGitSuffix_def suffix_def)

subsection \<open>The documents of the test suite\<close>

lemma sampleReadme_entries:
  "map (\<lambda>e. (name e, owner e, repo e)) (parseSkillsFromReadme sampleReadme)
     = [(''weather-forecast'', ''weather-dev'', ''openclaw-weather''),
        (''task-manager'', ''productivity'', ''openclaw-tasks''),
        (''crypto-prices'', ''crypto-dev'', ''price-tracker'')]"
  by code_simp

lemma gitLine_entry:
  "parseSkillsFromReadme gitLine =
     [\<lparr>name = ''crypto-prices'', owner = ''crypto-dev'', repo = ''price-tracker'',
       url = ''https://github.com/crypto-dev/price-tracker.git'',
       parsedFrom = ''- [crypto-prices](https://github.com/crypto-dev/price-tracker.git) - Track'',
       repoInfo = None, safetyScore = None\<rparr>]"
  by code_simp

text \<open>
  Claim C6: for every input document the extractor produces exactly one entry per line
  matching the pattern \<open>[label](https://host/owner/repo)\<close>, the host being the
  \<open>github.com\<close> of the source's pattern, in document order, with no de-duplication, and
  skips the other lines; each entry has \<open>name\<close> the label trimmed and in lower case,
  \<open>owner\<close> the first path segment after the host, and \<open>repo\<close> the remaining segment with a
  trailing \<open>.git\<close> removed.  The entries and the matching lines correspond one to one, in
  order, and each entry is read from the leftmost link of its line.
\<close>

theorem parseSkillsFromReadme_entries:
  "list_all2
     (\<lambda>line e. \<exists>label ow seg.
        firstLink line label ow seg
        \<and> name e = toLowerCase (trim label)
        \<and> owner e = ow
        \<and> ((\<exists>b. seg = b @ ''.git'' \<and> repo e = b) \<or> (\<not> suffix ''.git'' seg \<and> repo e = seg)))
     (filter matchesPattern (splitLines [] content))
     (parseSkillsFromReadme content)"
proof -
  have step: "\<exists>label ow seg.
        firstLink line label ow seg
        \<and> name e = toLowerCase (trim label)
        \<and> owner e = ow
        \<and> ((\<exists>b. seg = b @ ''.git'' \<and> repo e = b) \<or> (\<not> suffix ''.git'' seg \<and> repo e = seg))"
    if "\<exists>m. matchLine line = Some m \<and> e = mkSkill line m" for line e
  proof -
    from that obtain label ow seg where m: "matchLine line = Some (label, ow, seg)"
      and e: "e = mkSkill line (label, ow, seg)"
      by (metis prod_cases3)
    have "firstLink line label ow seg" using m by (simp only: firstLink_iff)
    moreover have "name e = toLowerCase (trim label)"
      using e by (simp add: mkSkill_def trim_toLowerCase)
    moreover have "owner e = ow" using e by (simp add: mkSkill_def)
    moreover have "repo e = replaceGitSuffix seg" using e by (simp add: mkSkill_def)
    then have "(\<exists>b. seg = b @ ''.git'' \<and> repo e = b) \<or> (\<not> suffix ''.git'' seg \<and> repo e = seg)"
      using replaceGitSuffix_cases [of seg] by simp
    ultimately show ?thesis by blast
  qed
  show ?thesis
    unfolding parseSkillsFromReadme_def filter_matchesPattern
    by (rule list_all2_mono [OF parseLoop_rel]) (rule step)
qed

text \<open>
  Claim C6 at the sample document of the test suite: three of its nine lines match, and
  the three entries are those the test suite expects, the last with \<open>.git\<close> removed.
\<close>

theorem parseSkillsFromReadme_entries_witness:
  "length (filter matchesPattern (splitLines [] sampleReadme)) = 3
   \<and> map (\<lambda>e. (name e, owner e, repo e)) (parseSkillsFromReadme sampleReadme)
       = [(''weather-forecast'', ''weather-dev'', ''openclaw-weather''),
          (''task-manager'', ''productivity'', ''openclaw-tasks''),
          (''crypto-prices'', ''crypto-dev'', ''price-tracker'')]"
proof -
  have "length (map (\<lambda>e. (name e, owner e, repo e)) (parseSkillsFromReadme sampleReadme)) = 3"
    by (simp only: sampleReadme_entries) simp
  then have "length (parseSkillsFromReadme sampleReadme) = 3" by simp
  moreover have "length (filter matchesPattern (splitLines [] sampleReadme))
                 = length (parseSkillsFromReadme sampleReadme)"
    using parseSkillsFromReadme_entries [of sampleReadme] by (rule list_all2_lengthD)
  ultimately show ?thesis using sampleReadme_entries by simp
qed

text \<open>
  Claim C7, as stated: the \<open>url\<close> of an entry is \<open>https://github.com/owner/repo\<close> with the
  \<open>repo\<close> of the entry, that is with a trailing \<open>.git\<close> stripped.  It fails for the third
  link of the test suite's document: the \<open>url\<close> keeps \<open>.git\<close>, the \<open>repo\<close> does not.
\<close>

theorem parseSkillsFromReadme_url_keeps_git:
  "map owner (parseSkillsFromReadme gitLine) = [''crypto-dev'']
   \<and> map repo (parseSkillsFromReadme gitLine) = [''price-tracker'']
   \<and> map url (parseSkillsFromReadme gitLine) = [''https://github.com/crypto-dev/price-tracker.git'']
   \<and> map url (parseSkillsFromReadme gitLine) \<noteq> [''https://github.com/crypto-dev/price-tracker'']"
  by (simp add: gitLine_entry)

text \<open>
  Claim C7, amended: for every entry produced by the extractor, \<open>url\<close> is
  \<open>https://github.com/\<close>, the owner, \<open>/\<close> and the repo segment as it stands in the line;
  a trailing \<open>.git\<close> is stripped in the \<open>repo\<close> field only, so \<open>url\<close> is the
  reconstruction from \<open>owner\<close> and \<open>repo\<close> exactly when the segment does not end in \<open>.git\<close>.
\<close>

theorem parseSkillsFromReadme_url:
  "list_all2
     (\<lambda>line e. \<exists>label ow seg.
        firstLink line label ow seg
        \<and> url e = ''https://github.com/'' @ ow @ ''/'' @ seg
        \<and> (url e = ''https://github.com/'' @ owner e @ ''/'' @ repo e \<longleftrightarrow> \<not> suffix ''.git'' seg))
     (filter matchesPattern (splitLines [] content))
     (parseSkillsFromReadme content)"
proof -
  have step: "\<exists>label ow seg.
        firstLink line label ow seg
        \<and> url e = ''https://github.com/'' @ ow @ ''/'' @ seg
        \<and> (url e = ''https://github.com/'' @ owner e @ ''/'' @ repo e \<longleftrightarrow> \<not> suffix ''.git'' seg)"
    if "\<exists>m. matchLine line = Some m \<and> e = mkSkill line m" for line e
  proof -
    from that obtain label ow seg where m: "matchLine line = Some (label, ow, seg)"
      and e: "e = mkSkill line (label, ow, seg)"
      by (metis prod_cases3)
    have "firstLink line label ow seg" using m by (simp only: firstLink_iff)
    moreover have u: "url e = ''https://github.com/'' @ ow @ ''/'' @ seg"
      using e by (simp add: mkSkill_def)
    moreover have "owner e = ow" "repo e = replaceGitSuffix seg"
      using e by (simp_all add: mkSkill_def)
    then have "url e = ''https://github.com/'' @ owner e @ ''/'' @ repo e \<longleftrightarrow> \<not> suffix ''.git'' seg"
      using u by (auto simp: replaceGitSuffix_def suffix_def)
    ultimately show ?thesis by blast
  qed
  show ?thesis
    unfolding parseSkillsFromReadme_def filter_matchesPattern
    by (rule list_all2_mono [OF parseLoop_rel]) (rule step)
qed

text \<open>
  The amended claim C7 at the line with the \<open>.git\<close> link: the line matches, and the one
  entry has the \<open>url\<close> as written in the line.
\<close>

theorem parseSkillsFromReadme_url_witness:
  "length (filter matchesPattern (splitLines [] gitLine)) = 1
   \<and> map url (parseSkillsFromReadme gitLine) = [''https://github.com/crypto-dev/price-tracker.git'']"
proof -
  have "length (filter matchesPattern (splitLines [] gitLine))
        = length (parseSkillsFromReadme gitLine)"
    using parseSkillsFromReadme_url [of gitLine] by (rule list_all2_lengthD)
  then show ?thesis by (simp add: gitLine_entry)
qed

section \<open>Fetching the metadata\<close>

lemma fetchRepoInfo_total: "\<exists>w1 info. fetchRepoInfo e ow rp w = (w1, Inr info)"
  by (cases "fetchRepoInfo_try e ow rp w") (auto simp: fetchRepoInfo_def split: sum.splits)

lemma fetchRepoInfo_fails:
  "metadataFetchFails e ow rp \<Longrightarrow> snd (fetchRepoInfo e ow rp w) = Inr (Some emptyInfo)"
  by (auto simp: metadataFetchFails_def fetchRepoInfo_def fetchRepoInfo_try_def httpRequest_def
           isl_def split: response.splits sum.splits)

lemma fetchRepoInfo_cache: "cacheFile (fst (fetchRepoInfo e ow rp w)) = cacheFile w"
  by (cases "httpRequest e (repoUrl ow rp) w")
     (auto simp: fetchRepoInfo_def fetchRepoInfo_try_def httpRequest_def split: sum.splits)

text \<open>
  Claim C4: for every owner and repo, a failure of the metadata fetch (the request
  fails, the status is not 2xx, or the response is not JSON) is absorbed:
  \<open>fetchRepoInfo\<close> returns the empty metadata object, and it never propagates an error;
  and for every metadata object with no \<open>stargazers_count\<close>, the empty object included,
  the score is exactly 0 whatever the other fields are.
\<close>

theorem fetchRepoInfo_absorbs_failure:
  "(\<exists>w1 info. fetchRepoInfo e ow rp w = (w1, Inr info))
   \<and> (metadataFetchFails e ow rp \<longrightarrow> snd (fetchRepoInfo e ow rp w) = Inr (Some emptyInfo))
   \<and> (stargazers_count r = None \<longrightarrow> calculateSafetyScore now (Some r) = 0)
   \<and> calculateSafetyScore now (Some emptyInfo) = 0"
  using fetchRepoInfo_total [of e ow rp w] fetchRepoInfo_fails [of e ow rp w]
  by (simp add: emptyInfo_def)

text \<open>
  Claim C4 without network: the fetch fails, the result is the empty object and no
  error; and the high quality repository without its star count scores 0.
\<close>

theorem fetchRepoInfo_absorbs_failure_witness:
  "metadataFetchFails (offlineEnv testNow) ''dev'' ''My-Tasks''
   \<and> snd (fetchRepoInfo (offlineEnv testNow) ''dev'' ''My-Tasks'' freshWorld) = Inr (Some emptyInfo)
   \<and> stargazers_count ((highQualityRepo testNow)\<lparr>stargazers_count := None\<rparr>) = None
   \<and> calculateSafetyScore testNow (Some ((highQualityRepo testNow)\<lparr>stargazers_count := None\<rparr>)) = 0"
  using fetchRepoInfo_absorbs_failure [of "offlineEnv testNow" "''dev''" "''My-Tasks''" freshWorld
          "(highQualityRepo testNow)\<lparr>stargazers_count := None\<rparr>" testNow]
  by (simp add: metadataFetchFails_def offlineEnv_def)

section \<open>Fetching the approved list\<close>

lemma fetchRemote_requests:
  "requests (fst (fetchRemote e w)) = requests w @ [awesomeSkillsUrl]"
  by (simp add: fetchRemote_def httpRequest_def saveCache_def Let_def
           split: response.splits sum.splits)

lemma fetchRemote_fails_iff:
  "remoteFetchFails e \<longleftrightarrow> (\<exists>err. snd (fetchRemote e w) = Inl err)"
  by (auto simp: remoteFetchFails_def fetchRemote_def httpRequest_def Let_def isl_def
           split: response.splits sum.splits)

lemma fetchRemote_fails_cache:
  "snd (fetchRemote e w) = Inl err \<Longrightarrow> cacheFile (fst (fetchRemote e w)) = cacheFile w"
  by (auto simp: fetchRemote_def httpRequest_def Let_def
           split: response.splits sum.splits if_splits)

lemma fetchRemote_ok:
  "snd (fetchRemote e w) = Inr sk \<Longrightarrow>
     \<exists>content. sk = parseSkillsFromReadme content
        \<and> fst (fetchRemote e w) = saveCache e sk (w\<lparr>requests := requests w @ [awesomeSkillsUrl]\<rparr>)"
  by (auto simp: fetchRemote_def httpRequest_def Let_def
           split: response.splits sum.splits if_splits)

text \<open>
  Claim C2: for every call of \<open>fetchApprovedSkills\<close> in which the remote fetch fails
  (network, status not 2xx, or decoding): if a cache file exists, fresh or expired, the
  call returns the cached entries; if none exists, the call fails with the error that
  no approved list is available, and returns no entries.
\<close>

theorem fetchApprovedSkills_fallback:
  "remoteFetchFails e \<Longrightarrow>
     (\<forall>c. cacheFile w = Some c \<longrightarrow> snd (fetchApprovedSkills e w) = Inr (skills c))
     \<and> (cacheFile w = None \<longrightarrow>
          snd (fetchApprovedSkills e w)
            = Inl (Error ''Cannot validate skills - no approved list available''))"
proof -
  assume "remoteFetchFails e"
  then obtain err where r: "snd (fetchRemote e w) = Inl err"
    using fetchRemote_fails_iff by blast
  then have c: "cacheFile (fst (fetchRemote e w)) = cacheFile w"
    by (rule fetchRemote_fails_cache)
  obtain w1 where f: "fetchRemote e w = (w1, Inl err)" using r by (cases "fetchRemote e w") simp
  with c have c1: "cacheFile w1 = cacheFile w" by simp
  show ?thesis
  proof (intro conjI allI impI)
    fix c assume s: "cacheFile w = Some c"
    show "snd (fetchApprovedSkills e w) = Inr (skills c)"
      using s f c1 by (simp add: fetchApprovedSkills_def fetchApprovedSkills_try_def loadCache_def)
  next
    assume n: "cacheFile w = None"
    show "snd (fetchApprovedSkills e w)
            = Inl (Error ''Cannot validate skills - no approved list available'')"
      using n f c1 by (simp add: fetchApprovedSkills_def fetchApprovedSkills_try_def loadCache_def)
  qed
qed

text \<open>
  Claim C2 without network: with a cache written two hours before, the call returns
  the cached entries; with no cache file, it fails with the error.
\<close>

theorem fetchApprovedSkills_fallback_witness:
  "remoteFetchFails (offlineEnv testNow)
   \<and> cacheFile (cachedWorld (testNow - 7200000))
       = Some \<lparr>timestamp = testNow - 7200000, skills = approvedFixture\<rparr>
   \<and> snd (fetchApprovedSkills (offlineEnv testNow) (cachedWorld (testNow - 7200000)))
       = Inr approvedFixture
   \<and> cacheFile freshWorld = None
   \<and> snd (fetchApprovedSkills (offlineEnv testNow) freshWorld)
       = Inl (Error ''Cannot validate skills - no approved list available'')"
proof -
  have f: "remoteFetchFails (offlineEnv testNow)"
    by (simp add: remoteFetchFails_def offlineEnv_def)
  show ?thesis
    using f fetchApprovedSkills_fallback [OF f, of "cachedWorld (testNow - 7200000)"]
      fetchApprovedSkills_fallback [OF f, of freshWorld]
    by (simp add: cachedWorld_def freshWorld_def)
qed

text \<open>
  Claim C5: the time to live is one hour; a cache written at time \<open>T\<close> holds the
  timestamp \<open>T\<close>; a call of \<open>fetchApprovedSkills\<close> at time \<open>T'\<close> with \<open>T' - T\<close> below the
  time to live returns the cached entries and leaves the world as it is, so sends no
  request; with \<open>T' - T\<close> at or above it, the call sends the request for the list.
\<close>

theorem fetchApprovedSkills_freshness:
  "cacheTimeout = 3600000
   \<and> (cacheWritable e0 \<longrightarrow>
        cacheFile (saveCache e0 sk w0) = Some \<lparr>timestamp = clock e0, skills = sk\<rparr>)
   \<and> (\<forall>c. cacheFile w = Some c \<and> clock e - timestamp c < cacheTimeout \<longrightarrow>
        fetchApprovedSkills e w = (w, Inr (skills c)))
   \<and> (\<forall>c. cacheFile w = Some c \<and> clock e - timestamp c \<ge> cacheTimeout \<longrightarrow>
        requests (fst (fetchApprovedSkills e w)) = requests w @ [awesomeSkillsUrl])"
proof (intro conjI allI impI)
  show "cacheTimeout = 3600000" by (simp add: cacheTimeout_def)
  show "cacheFile (saveCache e0 sk w0) = Some \<lparr>timestamp = clock e0, skills = sk\<rparr>"
    if "cacheWritable e0" using that by (simp add: saveCache_def)
next
  fix c assume "cacheFile w = Some c \<and> clock e - timestamp c < cacheTimeout"
  then show "fetchApprovedSkills e w = (w, Inr (skills c))"
    by (simp add: fetchApprovedSkills_def fetchApprovedSkills_try_def loadCache_def)
next
  fix c assume a: "cacheFile w = Some c \<and> clock e - timestamp c \<ge> cacheTimeout"
  then have t: "fetchApprovedSkills_try e w = fetchRemote e w"
    by (simp add: fetchApprovedSkills_try_def loadCache_def)
  have "fst (fetchApprovedSkills e w) = fst (fetchRemote e w)"
    unfolding fetchApprovedSkills_def t
    by (cases "fetchRemote e w") (auto split: sum.splits option.splits)
  then show "requests (fst (fetchApprovedSkills e w)) = requests w @ [awesomeSkillsUrl]"
    by (simp add: fetchRemote_requests)
qed

text \<open>
  Claim C5 at the two sides of the limit: the cache as \<open>saveCache\<close> writes it at
  \<open>testNow - 3599999\<close> is returned one millisecond before the hour is over, with no
  request; written at \<open>testNow - 3600000\<close>, it is an hour old and the request is sent.
\<close>

theorem fetchApprovedSkills_freshness_witness:
  "cacheWritable (onlineEnv (testNow - 3599999))
   \<and> saveCache (onlineEnv (testNow - 3599999)) approvedFixture freshWorld
       = cachedWorld (testNow - 3599999)
   \<and> clock (onlineEnv testNow) - (testNow - 3599999) < cacheTimeout
   \<and> fetchApprovedSkills (onlineEnv testNow) (cachedWorld (testNow - 3599999))
       = (cachedWorld (testNow - 3599999), Inr approvedFixture)
   \<and> clock (onlineEnv testNow) - (testNow - 3600000) \<ge> cacheTimeout
   \<and> requests (fst (fetchApprovedSkills (onlineEnv testNow) (cachedWorld (testNow - 3600000))))
       = [awesomeSkillsUrl]"
proof -
  have w: "cacheWritable (onlineEnv (testNow - 3599999))"
    by (simp add: onlineEnv_def)
  have s: "saveCache (onlineEnv (testNow - 3599999)) approvedFixture freshWorld
       = cachedWorld (testNow - 3599999)"
    by (simp add: saveCache_def onlineEnv_def freshWorld_def cachedWorld_def)
  have c: "clock (onlineEnv testNow) = testNow" by (simp add: onlineEnv_def)
  have f1: "cacheFile (cachedWorld (testNow - 3599999))
              = Some \<lparr>timestamp = testNow - 3599999, skills = approvedFixture\<rparr>"
    by (simp add: cachedWorld_def)
  have f2: "cacheFile (cachedWorld (testNow - 3600000))
              = Some \<lparr>timestamp = testNow - 3600000, skills = approvedFixture\<rparr>"
    by (simp add: cachedWorld_def)
  have r: "requests (cachedWorld (testNow - 3600000)) = []" by (simp add: cachedWorld_def)
  have lt: "clock (onlineEnv testNow) - (testNow - 3599999) < cacheTimeout"
    by (simp add: c cacheTimeout_def)
  have ge: "clock (onlineEnv testNow) - (testNow - 3600000) \<ge> cacheTimeout"
    by (simp add: c cacheTimeout_def)
  note t1 = fetchApprovedSkills_freshness
          [of "onlineEnv (testNow - 3599999)" approvedFixture freshWorld
              "cachedWorld (testNow - 3599999)" "onlineEnv testNow"]
  note t2 = fetchApprovedSkills_freshness
          [of "onlineEnv (testNow - 3599999)" approvedFixture freshWorld
              "cachedWorld (testNow - 3600000)" "onlineEnv testNow"]
  have a: "fetchApprovedSkills (onlineEnv testNow) (cachedWorld (testNow - 3599999))
       = (cachedWorld (testNow - 3599999), Inr approvedFixture)"
    using t1 f1 lt by auto
  have b: "requests (fst (fetchApprovedSkills (onlineEnv testNow) (cachedWorld (testNow - 3600000))))
       = [awesomeSkillsUrl]"
    using t2 f2 ge r by auto
  show ?thesis using w s lt a ge b by blast
qed

section \<open>Validating a skill\<close>

lemma includes_str_iff: "includes_str s sub \<longleftrightarrow> sublist sub s"
  by (induction s) (simp_all add: sublist_Cons_right)

lemma matchesSkill_iff:
  "matchesSkill q s \<longleftrightarrow> name s = q \<or> toLowerCase (repo s) = q \<or> sublist q (toLowerCase (repo s))"
  by (simp add: matchesSkill_def includes_str_iff)

lemma find_first:
  "i < length xs \<Longrightarrow> P (xs ! i) \<Longrightarrow> (\<forall>j<i. \<not> P (xs ! j)) \<Longrightarrow> find P xs = Some (xs ! i)"
  by (auto simp: find_Some_iff)

lemma find_none: "(\<forall>s\<in>set xs. \<not> P s) \<Longrightarrow> find P xs = None"
  by (simp add: find_None_iff)

lemma logAttempt_cache: "cacheFile (logAttempt e n res why u w) = cacheFile w"
  by (simp add: logAttempt_def)

lemma fetchApprovedSkills_origin:
  assumes "snd (fetchApprovedSkills e w) = Inr sk"
  shows "(\<exists>c. cacheFile w = Some c \<and> sk = skills c
              \<and> cacheFile (fst (fetchApprovedSkills e w)) = cacheFile w)
         \<or> (\<exists>content. sk = parseSkillsFromReadme content
              \<and> fst (fetchApprovedSkills e w)
                  = saveCache e sk (w\<lparr>requests := requests w @ [awesomeSkillsUrl]\<rparr>))"
proof (cases "isFresh e (cacheFile w)")
  case True
  then obtain c where c: "cacheFile w = Some c" by (cases "cacheFile w") auto
  with True have "fetchApprovedSkills e w = (w, Inr (skills c))"
    by (simp add: fetchApprovedSkills_def fetchApprovedSkills_try_def loadCache_def)
  with assms c show ?thesis by simp
next
  case False
  then have t: "fetchApprovedSkills_try e w = fetchRemote e w"
    by (cases "cacheFile w") (simp_all add: fetchApprovedSkills_try_def loadCache_def)
  obtain w1 res where r: "fetchRemote e w = (w1, res)" by (cases "fetchRemote e w")
  show ?thesis
  proof (cases res)
    case (Inr sk')
    with r t assms have eq: "sk' = sk" and f: "fetchApprovedSkills e w = fetchRemote e w"
      by (simp_all add: fetchApprovedSkills_def)
    from r Inr eq have "snd (fetchRemote e w) = Inr sk" by simp
    from fetchRemote_ok [OF this] f show ?thesis by simp
  next
    case (Inl err)
    with r have "snd (fetchRemote e w) = Inl err" by simp
    from fetchRemote_fails_cache [OF this] r have c1: "cacheFile w1 = cacheFile w" by simp
    show ?thesis
    proof (cases "cacheFile w")
      case None
      with r t Inl c1 assms show ?thesis
        by (simp add: fetchApprovedSkills_def loadCache_def)
    next
      case (Some c)
      with r t Inl c1 assms show ?thesis
        by (auto simp add: fetchApprovedSkills_def loadCache_def)
    qed
  qed
qed

lemma validateSkill_cache:
  "cacheFile (fst (validateSkill e skillName w)) = cacheFile (fst (fetchApprovedSkills e w))"
proof -
  obtain w1 res where f: "fetchApprovedSkills e w = (w1, res)"
    by (cases "fetchApprovedSkills e w")
  show ?thesis
  proof (cases res)
    case (Inl err)
    with f show ?thesis by (simp add: validateSkill_def logAttempt_cache)
  next
    case (Inr approvedSkills)
    show ?thesis
    proof (cases "find (matchesSkill (trim (toLowerCase skillName))) approvedSkills")
      case None
      with f Inr show ?thesis by (simp add: validateSkill_def logAttempt_cache)
    next
      case (Some s)
      obtain w2 info where i: "fetchRepoInfo e (owner s) (repo s) w1 = (w2, Inr info)"
        using fetchRepoInfo_total by blast
      then have "cacheFile w2 = cacheFile w1"
        using fetchRepoInfo_cache [of e "owner s" "repo s" w1] by simp
      with f Inr Some i show ?thesis by (simp add: validateSkill_def Let_def)
    qed
  qed
qed

lemma validateSkill_found:
  assumes "snd (fetchApprovedSkills e w) = Inr approvedSkills"
    and "find (matchesSkill (trim (toLowerCase skillName))) approvedSkills = Some s"
  shows "\<exists>r info. snd (validateSkill e skillName w) = Inr r \<and> approved r
           \<and> score r = Some (calculateSafetyScore (clock e) info)
           \<and> skill r = Some (s\<lparr>repoInfo := Some info, safetyScore := score r\<rparr>)"
proof -
  obtain w1 where f: "fetchApprovedSkills e w = (w1, Inr approvedSkills)"
    using assms(1) by (cases "fetchApprovedSkills e w") simp
  obtain w2 info where i: "fetchRepoInfo e (owner s) (repo s) w1 = (w2, Inr info)"
    using fetchRepoInfo_total by blast
  let ?r = "\<lparr>approved = True, reason = None,
             skill = Some (s\<lparr>repoInfo := Some info,
                             safetyScore := Some (calculateSafetyScore (clock e) info)\<rparr>),
             score = Some (calculateSafetyScore (clock e) info)\<rparr>"
  have "snd (validateSkill e skillName w) = Inr ?r"
    using f i assms(2) by (simp add: validateSkill_def Let_def)
  moreover have "approved ?r" by simp
  moreover have "score ?r = Some (calculateSafetyScore (clock e) info)" by simp
  moreover have "skill ?r = Some (s\<lparr>repoInfo := Some info, safetyScore := score ?r\<rparr>)" by simp
  ultimately show ?thesis by blast
qed

lemma validateSkill_not_found:
  assumes "snd (fetchApprovedSkills e w) = Inr approvedSkills"
    and "find (matchesSkill (trim (toLowerCase skillName))) approvedSkills = None"
  shows "snd (validateSkill e skillName w)
           = Inr \<lparr>approved = False,
                  reason = Some ''Not found in awesome-openclaw-skills repository'',
                  skill = None, score = None\<rparr>"
proof -
  obtain w1 where f: "fetchApprovedSkills e w = (w1, Inr approvedSkills)"
    using assms(1) by (cases "fetchApprovedSkills e w") simp
  show ?thesis
    using f assms(2) by (simp add: validateSkill_def Let_def)
qed

lemma not_found_reason: "sublist ''Not found'' ''Not found in awesome-openclaw-skills repository''"
  by (rule prefix_imp_sublist) simp

lemma validateSkill_skill:
  assumes "snd (validateSkill e skillName w) = Inr r" and "skill r = Some s'"
  shows "\<exists>approvedSkills s info.
           snd (fetchApprovedSkills e w) = Inr approvedSkills \<and> s \<in> set approvedSkills
           \<and> s' = s\<lparr>repoInfo := Some info,
                     safetyScore := Some (calculateSafetyScore (clock e) info)\<rparr>"
proof -
  obtain w1 res where f: "fetchApprovedSkills e w = (w1, res)"
    by (cases "fetchApprovedSkills e w")
  show ?thesis
  proof (cases res)
    case (Inl err)
    with f assms show ?thesis by (simp add: validateSkill_def)
  next
    case (Inr approvedSkills)
    show ?thesis
    proof (cases "find (matchesSkill (trim (toLowerCase skillName))) approvedSkills")
      case None
      with f Inr assms show ?thesis by (auto simp add: validateSkill_def)
    next
      case (Some s)
      then have mem: "s \<in> set approvedSkills"
        by (auto simp: find_Some_iff)
      obtain w2 info where i: "fetchRepoInfo e (owner s) (repo s) w1 = (w2, Inr info)"
        using fetchRepoInfo_total by blast
      with f Inr Some assms
      have "s' = s\<lparr>repoInfo := Some info, safetyScore := Some (calculateSafetyScore (clock e) info)\<rparr>"
        by (auto simp add: validateSkill_def Let_def)
      with mem f Inr show ?thesis by auto
    qed
  qed
qed

subsection \<open>The cached list of the examples\<close>

lemma fixture_fetch_offline:
  "fetchApprovedSkills (offlineEnv testNow) (cachedWorld testNow)
     = (cachedWorld testNow, Inr approvedFixture)"
  by (simp add: fetchApprovedSkills_def fetchApprovedSkills_try_def loadCache_def cachedWorld_def
      offlineEnv_def cacheTimeout_def)

lemma fixture_fetch_online:
  "fetchApprovedSkills (onlineEnv testNow) (cachedWorld testNow)
     = (cachedWorld testNow, Inr approvedFixture)"
  by (simp add: fetchApprovedSkills_def fetchApprovedSkills_try_def loadCache_def cachedWorld_def
      onlineEnv_def cacheTimeout_def)

lemma fixture_query: "trim (toLowerCase '' Tasks '') = ''tasks''"
  by code_simp

lemma fixture_find: "find (matchesSkill ''tasks'') approvedFixture = Some taskHelperEntry"
  by code_simp

lemma fixture_tiered: "tieredLookup ''tasks'' approvedFixture = Some tasksEntry"
  by code_simp

lemma fixture_none:
  "find (matchesSkill (trim (toLowerCase ''nonexistent-test-skill-12345''))) approvedFixture = None"
  by code_simp

lemma fixture_validate_offline:
  "returnedSkill (validateSkill (offlineEnv testNow) '' Tasks '' (cachedWorld testNow))
   = Some (taskHelperEntry\<lparr>repoInfo := Some (Some emptyInfo), safetyScore := Some 0\<rparr>)"
  by code_simp

lemma fixture_repoInfo_online:
  "fetchRepoInfo (onlineEnv testNow) ''dev'' ''My-Tasks'' (cachedWorld testNow)
   = ((cachedWorld testNow)\<lparr>requests := [repoUrl ''dev'' ''My-Tasks'']\<rparr>,
      Inr (Some (highQualityRepo testNow)))"
  by (simp add: fetchRepoInfo_def fetchRepoInfo_try_def httpRequest_def onlineEnv_def
      cachedWorld_def repoUrl_def awesomeSkillsUrl_def)

lemma fixture_validate_online:
  "validateSkill (onlineEnv testNow) '' Tasks '' (cachedWorld testNow)
   = ((cachedWorld testNow)\<lparr>requests := [repoUrl ''dev'' ''My-Tasks'']\<rparr>,
      Inr \<lparr>approved = True, reason = None,
           skill = Some (taskHelperEntry\<lparr>repoInfo := Some (Some (highQualityRepo testNow)),
                                          safetyScore := Some 10\<rparr>),
           score = Some 10\<rparr>)"
proof -
  have o: "owner taskHelperEntry = ''dev''" "repo taskHelperEntry = ''My-Tasks''"
    by (simp_all add: taskHelperEntry_def)
  have c: "clock (onlineEnv testNow) = testNow" by (simp add: onlineEnv_def)
  show ?thesis
    unfolding validateSkill_def
    by (simp only: fixture_fetch_online fixture_query fixture_find o fixture_repoInfo_online
        c highQualityRepo_score Let_def prod.case sum.case option.case)
qed

text \<open>
  Claim C1, as stated: the entry is selected by tiers, an entry whose name equals the
  query before any entry whose repo only contains it.  It fails for the query
  \<open>" Tasks "\<close> on a list with an entry of repo \<open>My-Tasks\<close> before the entry named
  \<open>tasks\<close>: the tiers select the second entry, \<open>validateSkill\<close> returns the first.
\<close>

theorem validateSkill_not_tiered:
  "snd (fetchApprovedSkills (offlineEnv testNow) (cachedWorld testNow)) = Inr approvedFixture
   \<and> map_option name (tieredLookup (trim (toLowerCase '' Tasks '')) approvedFixture) = Some ''tasks''
   \<and> map_option name
        (returnedSkill (validateSkill (offlineEnv testNow) '' Tasks '' (cachedWorld testNow)))
       = Some ''task-helper''"
  by (simp add: fixture_fetch_offline fixture_query fixture_tiered fixture_validate_offline
      tasksEntry_def taskHelperEntry_def)

text \<open>
  Claim C1, amended: for every approved list and every query string, \<open>validateSkill\<close>
  normalizes the query to lower case and trims it, and selects the first entry in
  document order that satisfies any of three conditions: its name equals the query, its
  repo in lower case equals the query, or its repo in lower case contains the query.
  On a match the result has \<open>approved\<close> true and carries that entry, with \<open>repoInfo\<close> and
  \<open>safetyScore\<close> set; with no match it has \<open>approved\<close> false, no entry, and a reason
  containing \<open>Not found\<close>.
\<close>

theorem validateSkill_first_match:
  "snd (fetchApprovedSkills e w) = Inr approvedSkills \<Longrightarrow>
   q = trim (toLowerCase skillName) \<Longrightarrow>
     (\<forall>s. matchesSkill q s \<longleftrightarrow>
            name s = q \<or> toLowerCase (repo s) = q \<or> sublist q (toLowerCase (repo s)))
     \<and> (\<forall>i<length approvedSkills.
          matchesSkill q (approvedSkills ! i) \<and> (\<forall>j<i. \<not> matchesSkill q (approvedSkills ! j)) \<longrightarrow>
          (\<exists>r info. snd (validateSkill e skillName w) = Inr r \<and> approved r
             \<and> skill r = Some ((approvedSkills ! i)\<lparr>repoInfo := Some info, safetyScore := score r\<rparr>)))
     \<and> ((\<forall>s\<in>set approvedSkills. \<not> matchesSkill q s) \<longrightarrow>
          (\<exists>r why. snd (validateSkill e skillName w) = Inr r \<and> \<not> approved r \<and> skill r = None
             \<and> reason r = Some why \<and> sublist ''Not found'' why))"
proof (intro conjI allI impI)
  fix s
  show "matchesSkill q s \<longleftrightarrow>
            name s = q \<or> toLowerCase (repo s) = q \<or> sublist q (toLowerCase (repo s))"
    by (rule matchesSkill_iff)
next
  assume a: "snd (fetchApprovedSkills e w) = Inr approvedSkills"
    and q: "q = trim (toLowerCase skillName)"
  fix i
  assume i: "i < length approvedSkills"
    and m: "matchesSkill q (approvedSkills ! i) \<and> (\<forall>j<i. \<not> matchesSkill q (approvedSkills ! j))"
  then have "find (matchesSkill q) approvedSkills = Some (approvedSkills ! i)"
    by (simp add: find_first)
  from validateSkill_found [OF a this [unfolded q]]
  show "\<exists>r info. snd (validateSkill e skillName w) = Inr r \<and> approved r
             \<and> skill r = Some ((approvedSkills ! i)\<lparr>repoInfo := Some info, safetyScore := score r\<rparr>)"
    by blast
next
  assume a: "snd (fetchApprovedSkills e w) = Inr approvedSkills"
    and q: "q = trim (toLowerCase skillName)"
  assume "\<forall>s\<in>set approvedSkills. \<not> matchesSkill q s"
  then have "find (matchesSkill q) approvedSkills = None" by (rule find_none)
  from validateSkill_not_found [OF a this [unfolded q]] not_found_reason
  show "\<exists>r why. snd (validateSkill e skillName w) = Inr r \<and> \<not> approved r \<and> skill r = None
             \<and> reason r = Some why \<and> sublist ''Not found'' why"
    by simp
qed

text \<open>
  The amended claim C1 on the cached list of two entries: the query \<open>" Tasks "\<close> is
  answered with the first entry, whose repo contains it, and the query of the test
  suite, which no entry matches, is rejected with the reason.
\<close>

theorem validateSkill_first_match_witness:
  "snd (fetchApprovedSkills (offlineEnv testNow) (cachedWorld testNow)) = Inr approvedFixture
   \<and> matchesSkill (trim (toLowerCase '' Tasks '')) (approvedFixture ! 0)
   \<and> (\<exists>r info. snd (validateSkill (offlineEnv testNow) '' Tasks '' (cachedWorld testNow)) = Inr r
         \<and> approved r
         \<and> skill r = Some ((approvedFixture ! 0)\<lparr>repoInfo := Some info, safetyScore := score r\<rparr>))
   \<and> find (matchesSkill (trim (toLowerCase ''nonexistent-test-skill-12345''))) approvedFixture = None
   \<and> (\<exists>r why. snd (validateSkill (offlineEnv testNow) ''nonexistent-test-skill-12345''
                      (cachedWorld testNow)) = Inr r
         \<and> \<not> approved r \<and> skill r = None \<and> reason r = Some why \<and> sublist ''Not found'' why)"
proof -
  have f: "snd (fetchApprovedSkills (offlineEnv testNow) (cachedWorld testNow)) = Inr approvedFixture"
    by (simp add: fixture_fetch_offline)
  have m: "matchesSkill (trim (toLowerCase '' Tasks '')) (approvedFixture ! 0)"
    by code_simp
  have l: "0 < length approvedFixture" by (simp add: approvedFixture_def)
  have n: "\<forall>s\<in>set approvedFixture.
             \<not> matchesSkill (trim (toLowerCase ''nonexistent-test-skill-12345'')) s"
    using fixture_none by (simp only: find_None_iff) blast
  note t1 = validateSkill_first_match [OF f refl, of "'' Tasks ''"]
  note t2 = validateSkill_first_match [OF f refl, of "''nonexistent-test-skill-12345''"]
  have a: "\<exists>r info. snd (validateSkill (offlineEnv testNow) '' Tasks '' (cachedWorld testNow)) = Inr r
         \<and> approved r
         \<and> skill r = Some ((approvedFixture ! 0)\<lparr>repoInfo := Some info, safetyScore := score r\<rparr>)"
    using t1 m l by blast
  have b: "\<exists>r why. snd (validateSkill (offlineEnv testNow) ''nonexistent-test-skill-12345''
                      (cachedWorld testNow)) = Inr r
         \<and> \<not> approved r \<and> skill r = None \<and> reason r = Some why \<and> sublist ''Not found'' why"
    using t2 n by blast
  show ?thesis using f m a fixture_none b by blast
qed

text \<open>
  Claim C8, as stated: no operation changes a field of an entry after the parse.  It
  fails for \<open>validateSkill\<close>: the entry found in the list comes back with \<open>repoInfo\<close> and
  \<open>safetyScore\<close> set, which the entry of the list did not have.
\<close>

theorem validateSkill_updates_entry:
  "find (matchesSkill (trim (toLowerCase '' Tasks ''))) approvedFixture = Some taskHelperEntry
   \<and> repoInfo taskHelperEntry = None \<and> safetyScore taskHelperEntry = None
   \<and> returnedSkill (validateSkill (onlineEnv testNow) '' Tasks '' (cachedWorld testNow))
       = Some (taskHelperEntry\<lparr>repoInfo := Some (Some (highQualityRepo testNow)),
                                safetyScore := Some 10\<rparr>)"
  by (simp add: fixture_query fixture_find fixture_validate_online returnedSkill_def
      taskHelperEntry_def)

text \<open>
  Claim C8, amended: \<open>fetchApprovedSkills\<close> returns the entries of the cache file as they
  are stored, or the entries of a fresh parse, which then replace the cache file as a
  whole; \<open>validateSkill\<close> leaves the cache file as \<open>fetchApprovedSkills\<close> left it and never
  changes \<open>name\<close>, \<open>owner\<close>, \<open>repo\<close>, \<open>url\<close> or \<open>parsedFrom\<close> of an entry; but it updates the
  matched entry in place, setting its \<open>repoInfo\<close> and \<open>safetyScore\<close>.
\<close>

theorem entries_preserved:
  "(\<forall>sk. snd (fetchApprovedSkills e w) = Inr sk \<longrightarrow>
      (\<exists>c. cacheFile w = Some c \<and> sk = skills c
           \<and> cacheFile (fst (fetchApprovedSkills e w)) = cacheFile w)
      \<or> (\<exists>content. sk = parseSkillsFromReadme content
           \<and> fst (fetchApprovedSkills e w)
               = saveCache e sk (w\<lparr>requests := requests w @ [awesomeSkillsUrl]\<rparr>)))
   \<and> cacheFile (fst (validateSkill e skillName w)) = cacheFile (fst (fetchApprovedSkills e w))
   \<and> (\<forall>r s'. snd (validateSkill e skillName w) = Inr r \<and> skill r = Some s' \<longrightarrow>
        (\<exists>approvedSkills s info.
           snd (fetchApprovedSkills e w) = Inr approvedSkills \<and> s \<in> set approvedSkills
           \<and> name s' = name s \<and> owner s' = owner s \<and> repo s' = repo s \<and> url s' = url s
           \<and> parsedFrom s' = parsedFrom s
           \<and> repoInfo s' = Some info
           \<and> safetyScore s' = Some (calculateSafetyScore (clock e) info)))"
proof (intro conjI allI impI)
  fix sk assume "snd (fetchApprovedSkills e w) = Inr sk"
  then show "(\<exists>c. cacheFile w = Some c \<and> sk = skills c
           \<and> cacheFile (fst (fetchApprovedSkills e w)) = cacheFile w)
      \<or> (\<exists>content. sk = parseSkillsFromReadme content
           \<and> fst (fetchApprovedSkills e w)
               = saveCache e sk (w\<lparr>requests := requests w @ [awesomeSkillsUrl]\<rparr>))"
    by (rule fetchApprovedSkills_origin)
next
  show "cacheFile (fst (validateSkill e skillName w)) = cacheFile (fst (fetchApprovedSkills e w))"
    by (rule validateSkill_cache)
next
  fix r s' assume a: "snd (validateSkill e skillName w) = Inr r \<and> skill r = Some s'"
  then obtain approvedSkills s info where
    h: "snd (fetchApprovedSkills e w) = Inr approvedSkills" "s \<in> set approvedSkills"
       "s' = s\<lparr>repoInfo := Some info, safetyScore := Some (calculateSafetyScore (clock e) info)\<rparr>"
    using validateSkill_skill by blast
  from h(3) have "name s' = name s \<and> owner s' = owner s \<and> repo s' = repo s \<and> url s' = url s
           \<and> parsedFrom s' = parsedFrom s \<and> repoInfo s' = Some info
           \<and> safetyScore s' = Some (calculateSafetyScore (clock e) info)"
    by simp
  with h(1,2) show "\<exists>approvedSkills s info.
           snd (fetchApprovedSkills e w) = Inr approvedSkills \<and> s \<in> set approvedSkills
           \<and> name s' = name s \<and> owner s' = owner s \<and> repo s' = repo s \<and> url s' = url s
           \<and> parsedFrom s' = parsedFrom s
           \<and> repoInfo s' = Some info
           \<and> safetyScore s' = Some (calculateSafetyScore (clock e) info)"
    by blast
qed

lemma fixture_fetch_fresh:
  "fetchApprovedSkills (onlineEnv testNow) freshWorld
   = (\<lparr>cacheFile = Some \<lparr>timestamp = testNow, skills = parseSkillsFromReadme gitLine\<rparr>,
       auditLog = [], requests = [awesomeSkillsUrl]\<rparr>,
      Inr (parseSkillsFromReadme gitLine))"
  by (simp add: fetchApprovedSkills_def fetchApprovedSkills_try_def loadCache_def fetchRemote_def
      httpRequest_def saveCache_def onlineEnv_def freshWorld_def Let_def)

text \<open>
  The amended claim C8 in two runs.  With no cache file, the fetched document is parsed
  and the cache file holds the parsed entries.  With a cache file, \<open>validateSkill\<close>
  leaves the file as it was, and the entry it returns, with the metadata of the high
  quality repository and the score 10 set, has the five parsed fields of an entry of the
  cached list.
\<close>

theorem entries_preserved_witness:
  "snd (fetchApprovedSkills (onlineEnv testNow) freshWorld) = Inr (parseSkillsFromReadme gitLine)
   \<and> cacheFile (fst (fetchApprovedSkills (onlineEnv testNow) freshWorld))
       = Some \<lparr>timestamp = testNow, skills = parseSkillsFromReadme gitLine\<rparr>
   \<and> snd (fetchApprovedSkills (onlineEnv testNow) (cachedWorld testNow)) = Inr approvedFixture
   \<and> cacheFile (fst (validateSkill (onlineEnv testNow) '' Tasks '' (cachedWorld testNow)))
       = Some \<lparr>timestamp = testNow, skills = approvedFixture\<rparr>
   \<and> (\<exists>s info. s \<in> set approvedFixture
         \<and> name s = ''task-helper'' \<and> owner s = ''dev'' \<and> repo s = ''My-Tasks''
         \<and> url s = ''https://github.com/dev/My-Tasks''
         \<and> parsedFrom s = ''- [task-helper](https://github.com/dev/My-Tasks)''
         \<and> info = Some (highQualityRepo testNow)
         \<and> calculateSafetyScore (clock (onlineEnv testNow)) info = 10)"
proof -
  let ?e = "onlineEnv testNow" and ?w = "cachedWorld testNow"
  let ?s' = "taskHelperEntry\<lparr>repoInfo := Some (Some (highQualityRepo testNow)),
                             safetyScore := Some 10\<rparr>"
  let ?r = "\<lparr>approved = True, reason = None, skill = Some ?s', score = Some 10\<rparr>"
  note t = entries_preserved [of ?e ?w "'' Tasks ''"]
  have v: "snd (validateSkill ?e '' Tasks '' ?w) = Inr ?r \<and> skill ?r = Some ?s'"
    by (simp add: fixture_validate_online)
  have f: "snd (fetchApprovedSkills ?e ?w) = Inr approvedFixture"
    by (simp add: fixture_fetch_online)
  have "cacheFile (fst (validateSkill ?e '' Tasks '' ?w)) = cacheFile (fst (fetchApprovedSkills ?e ?w))"
    using t by blast
  also have "\<dots> = cacheFile ?w" by (simp only: fixture_fetch_online fst_conv)
  also have "\<dots> = Some \<lparr>timestamp = testNow, skills = approvedFixture\<rparr>"
    by (simp add: cachedWorld_def)
  finally have c: "cacheFile (fst (validateSkill ?e '' Tasks '' ?w))
             = Some \<lparr>timestamp = testNow, skills = approvedFixture\<rparr>" .
  from t v obtain approvedSkills s info where
    h: "snd (fetchApprovedSkills ?e ?w) = Inr approvedSkills" "s \<in> set approvedSkills"
       "name ?s' = name s" "owner ?s' = owner s" "repo ?s' = repo s" "url ?s' = url s"
       "parsedFrom ?s' = parsedFrom s" "repoInfo ?s' = Some info"
       "safetyScore ?s' = Some (calculateSafetyScore (clock ?e) info)"
    by blast
  from h(1) f have "approvedSkills = approvedFixture" by simp
  with h have "s \<in> set approvedFixture
         \<and> name s = ''task-helper'' \<and> owner s = ''dev'' \<and> repo s = ''My-Tasks''
         \<and> url s = ''https://github.com/dev/My-Tasks''
         \<and> parsedFrom s = ''- [task-helper](https://github.com/dev/My-Tasks)''
         \<and> info = Some (highQualityRepo testNow)
         \<and> calculateSafetyScore (clock (onlineEnv testNow)) info = 10"
    by (simp add: taskHelperEntry_def)
  then have e: "\<exists>s info. s \<in> set approvedFixture
         \<and> name s = ''task-helper'' \<and> owner s = ''dev'' \<and> repo s = ''My-Tasks''
         \<and> url s = ''https://github.com/dev/My-Tasks''
         \<and> parsedFrom s = ''- [task-helper](https://github.com/dev/My-Tasks)''
         \<and> info = Some (highQualityRepo testNow)
         \<and> calculateSafetyScore (clock (onlineEnv testNow)) info = 10"
    by blast
  have g: "snd (fetchApprovedSkills (onlineEnv testNow) freshWorld) = Inr (parseSkillsFromReadme gitLine)"
     "cacheFile (fst (fetchApprovedSkills (onlineEnv testNow) freshWorld))
       = Some \<lparr>timestamp = testNow, skills = parseSkillsFromReadme gitLine\<rparr>"
    by (simp_all add: fixture_fetch_fresh)
  show ?thesis using g f c e by blast
qed

end
